theory Spec2Isabelle
  imports Complex_Main
begin

section \<open>Python values used by the grading core\<close>

text \<open>
  The grading core of \<^verbatim>\<open>src/main.py\<close> is the four tolerant parsers
  (\<^verbatim>\<open>normalize_choice\<close>, \<^verbatim>\<open>parse_matching_input\<close>, \<^verbatim>\<open>parse_tf_list_input\<close>,
  \<^verbatim>\<open>parse_ordering_input\<close>), \<^verbatim>\<open>question_max_points\<close> and \<^verbatim>\<open>grade_answers\<close>.

  A Python \<^verbatim>\<open>str\<close> is a sequence of Unicode code points, so a character is a natural
  number and a string a list of them. Literals are written through \<open>pystr_of\<close>.
\<close>

type_synonym pychar = nat
type_synonym pystr = "nat list"

definition pystr_of :: "string \<Rightarrow> pystr" where
  "pystr_of s = map of_char s"

subsection \<open>Character classes\<close>

text \<open>
  \<^verbatim>\<open>str.isspace\<close>, \<^verbatim>\<open>str.strip()\<close>, \<^verbatim>\<open>str.split()\<close> and the pattern \<^verbatim>\<open>\s\<close> of
  \<^verbatim>\<open>re\<close> on a \<^verbatim>\<open>str\<close> share one table of white space: the ASCII controls 9..13 and
  28..31, the space, and the Unicode separators listed below.
\<close>

definition isspace :: "pychar \<Rightarrow> bool" where
  "isspace c =
     ((9 \<le> c \<and> c \<le> 13) \<or> (28 \<le> c \<and> c \<le> 32) \<or> c = 133 \<or> c = 160 \<or> c = 5760
      \<or> (8192 \<le> c \<and> c \<le> 8202) \<or> c = 8232 \<or> c = 8233 \<or> c = 8239 \<or> c = 8287
      \<or> c = 12288)"

text \<open>The character class \<^verbatim>\<open>[A-Za-z]\<close> and \<^verbatim>\<open>[a-z]\<close> of the patterns: ASCII only.\<close>

definition is_ascii_letter :: "pychar \<Rightarrow> bool" where
  "is_ascii_letter c = ((65 \<le> c \<and> c \<le> 90) \<or> (97 \<le> c \<and> c \<le> 122))"

definition is_ascii_lower :: "pychar \<Rightarrow> bool" where
  "is_ascii_lower c = (97 \<le> c \<and> c \<le> 122)"

text \<open>
  \<^verbatim>\<open>\d\<close> on a \<^verbatim>\<open>str\<close> is any Unicode decimal digit (category Nd), and \<^verbatim>\<open>int\<close> reads
  the same digits. Every run of ten such digits starts at one of the code points below
  (Unicode 14, as in Python 3.11) and holds the values 0 to 9 in order.
\<close>

definition digit_starts :: "pychar list" where
  "digit_starts =
     [48, 1632, 1776, 1984, 2406, 2534, 2662, 2790, 2918, 3046, 3174, 3302, 3430, 3558,
      3664, 3792, 3872, 4160, 4240, 6112, 6160, 6470, 6608, 6784, 6800, 6992, 7088, 7232,
      7248, 42528, 43216, 43264, 43472, 43504, 43600, 44016, 65296, 66720, 68912, 69734,
      69872, 69942, 70096, 70384, 70736, 70864, 71248, 71360, 71472, 71904, 72016, 72784,
      73040, 73120, 92768, 92864, 93008, 120782, 120792, 120802, 120812, 120822, 123200,
      123632, 125264, 130032]"

definition digit_value :: "pychar \<Rightarrow> nat option" where
  "digit_value c =
     (case filter (\<lambda>s. s \<le> c \<and> c < s + 10) digit_starts of
        [] \<Rightarrow> None
      | s # _ \<Rightarrow> Some (c - s))"

definition is_digit :: "pychar \<Rightarrow> bool" where
  "is_digit c = (digit_value c \<noteq> None)"

subsection \<open>Case mapping\<close>

text \<open>
  \<^verbatim>\<open>str.lower\<close> and \<^verbatim>\<open>str.upper\<close> map each character to a string. The tables hold
  ASCII, Latin-1, the basic Cyrillic letters, and every character outside ASCII whose
  image contains an ASCII letter (U+0130 and U+212A for \<^verbatim>\<open>lower\<close>; the sharp s, the
  dotless i, the long s, the ligatures U+FB00 to U+FB06 and six more for \<^verbatim>\<open>upper\<close>).
  The other cased characters of Unicode are left as they are: their images never contain
  an ASCII letter.
\<close>

definition lower_char :: "pychar \<Rightarrow> pystr" where
  "lower_char c =
     (if 65 \<le> c \<and> c \<le> 90 then [c + 32]
      else if 192 \<le> c \<and> c \<le> 222 \<and> c \<noteq> 215 then [c + 32]
      else if c = 304 then [105, 775]
      else if 1024 \<le> c \<and> c \<le> 1039 then [c + 80]
      else if 1040 \<le> c \<and> c \<le> 1071 then [c + 32]
      else if c = 8490 then [107]
      else [c])"

definition upper_char :: "pychar \<Rightarrow> pystr" where
  "upper_char c =
     (if 97 \<le> c \<and> c \<le> 122 then [c - 32]
      else if c = 181 then [924]
      else if c = 223 then [83, 83]
      else if 224 \<le> c \<and> c \<le> 254 \<and> c \<noteq> 247 then [c - 32]
      else if c = 255 then [376]
      else if c = 305 then [73]
      else if c = 329 then [700, 78]
      else if c = 383 then [83]
      else if c = 496 then [74, 780]
      else if 1072 \<le> c \<and> c \<le> 1103 then [c - 32]
      else if 1104 \<le> c \<and> c \<le> 1119 then [c - 80]
      else if c = 7830 then [72, 817]
      else if c = 7831 then [84, 776]
      else if c = 7832 then [87, 778]
      else if c = 7833 then [89, 778]
      else if c = 7834 then [65, 702]
      else if c = 64256 then [70, 70]
      else if c = 64257 then [70, 73]
      else if c = 64258 then [70, 76]
      else if c = 64259 then [70, 70, 73]
      else if c = 64260 then [70, 70, 76]
      else if c = 64261 then [83, 84]
      else if c = 64262 then [83, 84]
      else [c])"

definition lower :: "pystr \<Rightarrow> pystr" where
  "lower s = concat (map lower_char s)"

definition upper :: "pystr \<Rightarrow> pystr" where
  "upper s = concat (map upper_char s)"

subsection \<open>String methods\<close>

text \<open>\<^verbatim>\<open>s.strip()\<close>: white space removed at both ends.\<close>

definition strip :: "pystr \<Rightarrow> pystr" where
  "strip s = rev (dropWhile isspace (rev (dropWhile isspace s)))"

text \<open>\<^verbatim>\<open>s.replace(a, b)\<close> for one-character \<open>a\<close> and \<open>b\<close>.\<close>

definition replace :: "pychar \<Rightarrow> pychar \<Rightarrow> pystr \<Rightarrow> pystr" where
  "replace a b s = map (\<lambda>c. if c = a then b else c) s"

text \<open>
  \<^verbatim>\<open>s.split()\<close>: the maximal runs of characters that are not white space. The first
  argument of \<open>words_from\<close> is the run being read.
\<close>

fun words_from :: "pystr \<Rightarrow> pystr \<Rightarrow> pystr list" where
  "words_from w [] = (if w = [] then [] else [w])"
| "words_from w (c # cs) =
     (if isspace c then (if w = [] then words_from [] cs else w # words_from [] cs)
      else words_from (w @ [c]) cs)"

definition split :: "pystr \<Rightarrow> pystr list" where
  "split s = words_from [] s"

text \<open>\<^verbatim>\<open>s.split(sep)\<close> for a one-character separator: empty fields are kept.\<close>

fun fields_from :: "pychar \<Rightarrow> pystr \<Rightarrow> pystr \<Rightarrow> pystr list" where
  "fields_from sep w [] = [w]"
| "fields_from sep w (c # cs) =
     (if c = sep then w # fields_from sep [] cs else fields_from sep (w @ [c]) cs)"

definition split_on :: "pychar \<Rightarrow> pystr \<Rightarrow> pystr list" where
  "split_on sep s = fields_from sep [] s"

text \<open>\<^verbatim>\<open>t.startswith(p)\<close> and \<^verbatim>\<open>kw in low\<close> (substring search).\<close>

fun startswith :: "pystr \<Rightarrow> pystr \<Rightarrow> bool" where
  "startswith s [] = True"
| "startswith [] (p # ps) = False"
| "startswith (c # cs) (p # ps) = (c = p \<and> startswith cs ps)"

fun contains :: "pystr \<Rightarrow> pystr \<Rightarrow> bool" where
  "contains [] kw = (kw = [])"
| "contains (c # cs) kw = (startswith (c # cs) kw \<or> contains cs kw)"

text \<open>
  What the source can raise: a division by zero, a method missing on a value, and
  \<^verbatim>\<open>int\<close> on a string of more than 4300 digits (the limit of CPython 3.11, which
  counts leading zeros too).
\<close>

datatype py_error = ZeroDivisionError | AttributeError | ValueError

text \<open>\<^verbatim>\<open>int(ds)\<close> on a string of decimal digits.\<close>

definition py_int :: "pystr \<Rightarrow> py_error + int" where
  "py_int ds =
     (if 4300 < length ds then Inl ValueError
      else Inr (foldl (\<lambda>a d. 10 * a + int (case digit_value d of None \<Rightarrow> 0 | Some v \<Rightarrow> v))
                  0 ds))"

text \<open>
  A \<^verbatim>\<open>dict\<close> is an association list with distinct keys, in insertion order:
  \<^verbatim>\<open>d[k] = v\<close> replaces the value of a key already there and appends a new key at the
  end; \<^verbatim>\<open>d.get(k)\<close> is \<open>map_of d k\<close>.
\<close>

fun dict_set :: "('k \<times> 'v) list \<Rightarrow> 'k \<Rightarrow> 'v \<Rightarrow> ('k \<times> 'v) list" where
  "dict_set [] k v = [(k, v)]"
| "dict_set ((k', v') # d) k v = (if k' = k then (k, v) # d else (k', v') # dict_set d k v)"

section \<open>The tolerant parsers\<close>

text \<open>\<^verbatim>\<open>normalize_choice(s)\<close> is \<^verbatim>\<open>(s or "").strip().lower()\<close>.\<close>

definition normalize_choice :: "pystr \<Rightarrow> pystr" where
  "normalize_choice s = lower (strip s)"

subsection \<open>\<^verbatim>\<open>parse_matching_input\<close>\<close>

text \<open>
  The pattern \<^verbatim>\<open>([A-Za-z])\s*[-=:]?\s*(\d+)\<close> tried at the start of a string: the
  letter, the digits and the rest after the match. The three classes \<^verbatim>\<open>\s\<close>,
  \<^verbatim>\<open>[-=:]\<close> and \<^verbatim>\<open>\d\<close> are disjoint, so the greedy match is the only one.
\<close>

definition is_joiner :: "pychar \<Rightarrow> bool" where
  "is_joiner c = (c = 45 \<or> c = 61 \<or> c = 58)"

definition match_pair :: "pystr \<Rightarrow> (pychar \<times> pystr \<times> pystr) option" where
  "match_pair s =
     (case s of
        [] \<Rightarrow> None
      | c # r0 \<Rightarrow>
          if is_ascii_letter c then
            let r1 = dropWhile isspace r0;
                r2 = (case r1 of [] \<Rightarrow> r1 | j # t \<Rightarrow> if is_joiner j then t else r1);
                r3 = dropWhile isspace r2;
                ds = takeWhile is_digit r3
            in if ds = [] then None else Some (c, ds, dropWhile is_digit r3)
          else None)"

text \<open>
  \<^verbatim>\<open>re.match(r"^([A-Za-z])\s*[-=:]?\s*(\d+)$", p)\<close>: the pattern at the start, and
  \<^verbatim>\<open>$\<close> accepts the end of the string or a last line feed.
\<close>

definition match_whole :: "pystr \<Rightarrow> (pychar \<times> pystr) option" where
  "match_whole p =
     (case match_pair p of
        None \<Rightarrow> None
      | Some (c, ds, rest) \<Rightarrow> if rest = [] \<or> rest = [10] then Some (c, ds) else None)"

lemma match_pair_shorter:
  assumes "match_pair s = Some (c, ds, rest)"
  shows "length rest < length s"
proof (cases s)
  case Nil
  with assms show ?thesis by (simp add: match_pair_def)
next
  case (Cons a r0)
  let ?r1 = "dropWhile isspace r0"
  let ?r2 = "case ?r1 of [] \<Rightarrow> ?r1 | j # t \<Rightarrow> if is_joiner j then t else ?r1"
  let ?r3 = "dropWhile isspace ?r2"
  have "rest = dropWhile is_digit ?r3"
    using assms Cons by (simp add: match_pair_def Let_def split: if_splits)
  moreover have "length (dropWhile is_digit ?r3) \<le> length ?r3"
    by (rule length_dropWhile_le)
  moreover have "length ?r3 \<le> length ?r2"
    by (rule length_dropWhile_le)
  moreover have "length ?r2 \<le> length ?r1"
    by (simp split: list.splits)
  moreover have "length ?r1 \<le> length r0"
    by (rule length_dropWhile_le)
  ultimately show ?thesis using Cons by simp
qed

text \<open>
  \<^verbatim>\<open>re.finditer\<close> of the same pattern without anchors: the matches from left to
  right, each search resuming where the last match ended.
\<close>

function finditer_pairs :: "pystr \<Rightarrow> (pychar \<times> pystr) list" where
  "finditer_pairs [] = []"
| "finditer_pairs (c # cs) =
     (case match_pair (c # cs) of
        None \<Rightarrow> finditer_pairs cs
      | Some (l, ds, rest) \<Rightarrow> (l, ds) # finditer_pairs rest)"
  by pat_completeness auto
termination
  by (relation "measure length") (auto dest: match_pair_shorter)

text \<open>
  \<^verbatim>\<open>res[left] = int(...)\<close> for one match, the inner loop over the matches of
  \<^verbatim>\<open>finditer\<close>, and the outer loop over the tokens. A \<^verbatim>\<open>ValueError\<close> of \<^verbatim>\<open>int\<close>
  leaves the loops.
\<close>

definition store_pair ::
  "(pystr \<times> int) list \<Rightarrow> pychar \<times> pystr \<Rightarrow> py_error + (pystr \<times> int) list" where
  "store_pair res m =
     (case py_int (snd m) of
        Inl e \<Rightarrow> Inl e
      | Inr right \<Rightarrow> Inr (dict_set res (lower [fst m]) right))"

fun store_pairs ::
  "(pystr \<times> int) list \<Rightarrow> (pychar \<times> pystr) list \<Rightarrow> py_error + (pystr \<times> int) list" where
  "store_pairs res [] = Inr res"
| "store_pairs res (m # ms) =
     (case store_pair res m of
        Inl e \<Rightarrow> Inl e
      | Inr res' \<Rightarrow> store_pairs res' ms)"

fun parse_parts ::
  "(pystr \<times> int) list \<Rightarrow> pystr list \<Rightarrow> py_error + (pystr \<times> int) list" where
  "parse_parts res [] = Inr res"
| "parse_parts res (p # ps) =
     (case (case match_whole p of
              Some m \<Rightarrow> store_pair res m
            | None \<Rightarrow> store_pairs res (finditer_pairs p)) of
        Inl e \<Rightarrow> Inl e
      | Inr res' \<Rightarrow> parse_parts res' ps)"

definition parse_matching_input :: "pystr \<Rightarrow> py_error + (pystr \<times> int) list" where
  "parse_matching_input s =
     (if s = [] then Inr []
      else
        let s2 = strip (replace 58 32 (replace 44 32 (replace 59 32 s)));
            parts = split s2
        in parse_parts [] parts)"

subsection \<open>\<^verbatim>\<open>parse_tf_list_input\<close>\<close>

definition parse_tf_list_input :: "pystr \<Rightarrow> pystr list" where
  "parse_tf_list_input s =
     (if s = [] then []
      else
        let s2 = upper s;
            s2 = map (\<lambda>c. if c = 44 \<or> c = 46 \<or> c = 59 then 32 else c) s2
        in if list_ex isspace s2 then
             let parts = filter (\<lambda>p. p \<in> set (map pystr_of [''T'', ''F'', ''TRUE'', ''FALSE'']))
                           (split s2)
             in map (\<lambda>p. if p \<in> set (map pystr_of [''T'', ''TRUE''])
                          then pystr_of ''T'' else pystr_of ''F'') parts
           else map (\<lambda>c. [c]) (filter (\<lambda>c. c = 84 \<or> c = 70) s2))"

subsection \<open>\<^verbatim>\<open>parse_ordering_input\<close>\<close>

text \<open>
  \<^verbatim>\<open>re.match(r"^[a-z]$", p)\<close>: one ASCII lower-case letter, then the end of the string
  or a last line feed.
\<close>

definition match_letter :: "pystr \<Rightarrow> bool" where
  "match_letter p =
     (case p of
        [] \<Rightarrow> False
      | c # rest \<Rightarrow> is_ascii_lower c \<and> (rest = [] \<or> rest = [10]))"

definition parse_ordering_input :: "pystr \<Rightarrow> pystr list" where
  "parse_ordering_input s =
     (if s = [] then []
      else
        let s2 = strip s;
            parts =
              (if 44 \<in> set s2 then
                 map (\<lambda>p. lower (strip p)) (filter (\<lambda>p. strip p \<noteq> []) (split_on 44 s2))
               else if list_ex isspace s2 then
                 map (\<lambda>p. lower (strip p)) (filter (\<lambda>p. strip p \<noteq> []) (split s2))
               else map (\<lambda>c. [c]) (lower s2))
        in filter match_letter parts)"

section \<open>Scores\<close>

text \<open>
  A score is a Python number (an \<^verbatim>\<open>int\<close> or a \<^verbatim>\<open>float\<close>). The model computes with
  exact rationals: the representation error of binary floating point is left out.
  \<^verbatim>\<open>round(x, 2)\<close> rounds to the nearest hundredth, a tie going to the even hundredth.
  Where the binary value that the interpreter holds lies on the other side of a tie
  (2.675 is held as a little less), its result differs from the model's by a hundredth.
\<close>

definition round_half_even :: "rat \<Rightarrow> int" where
  "round_half_even x =
     (let f = \<lfloor>x\<rfloor>; d = x - of_int f
      in if d < 1 / 2 then f
         else if 1 / 2 < d then f + 1
         else if even f then f
         else f + 1)"

definition round2 :: "rat \<Rightarrow> rat" where
  "round2 x = of_int (round_half_even (x * 100)) / 100"

definition py_div :: "rat \<Rightarrow> rat \<Rightarrow> py_error + rat" where
  "py_div a b = (if b = 0 then Inl ZeroDivisionError else Inr (a / b))"

section \<open>Tests, questions, answers\<close>

text \<open>
  A question is the dictionary read from the test definition. \<^verbatim>\<open>id\<close> and \<^verbatim>\<open>type\<close> are
  always there; \<^verbatim>\<open>points\<close>, \<^verbatim>\<open>answer\<close>, \<^verbatim>\<open>items\<close>, \<^verbatim>\<open>options\<close> and \<^verbatim>\<open>keywords\<close>
  may be missing (\<open>None\<close>); the field \<open>q_keywords\<close> is the key \<^verbatim>\<open>keywords\<close>. The
  value under \<^verbatim>\<open>answer\<close> is a string (single choice), a dictionary from letters to
  numbers (matching) or a list of strings (true/false list, ordering), and \<^verbatim>\<open>points\<close>
  is a number. The fields that grading never reads (\<^verbatim>\<open>text\<close>, \<^verbatim>\<open>left\<close>, \<^verbatim>\<open>right\<close>)
  are left out.
\<close>

datatype answer_key =
    Choice pystr
  | Pairs "(pystr \<times> int) list"
  | Sequence "pystr list"

record question =
  qid :: pystr
  qtype :: pystr
  points :: "rat option"
  answer :: "answer_key option"
  items :: "pystr list option"
  options :: "pystr list option"
  q_keywords :: "pystr list option"

record test =
  test_id :: pystr
  title :: pystr
  questions :: "question list"

type_synonym answers = "pystr \<rightharpoonup> pystr"

text \<open>\<^verbatim>\<open>len(q.get("answer", {}))\<close>, whatever the shape of the value.\<close>

definition answer_len :: "question \<Rightarrow> nat" where
  "answer_len q =
     (case answer q of
        None \<Rightarrow> 0
      | Some (Choice s) \<Rightarrow> length s
      | Some (Pairs m) \<Rightarrow> length m
      | Some (Sequence l) \<Rightarrow> length l)"

definition opt_len :: "'a list option \<Rightarrow> nat" where
  "opt_len xs = (case xs of None \<Rightarrow> 0 | Some l \<Rightarrow> length l)"

definition question_max_points :: "question \<Rightarrow> rat" where
  "question_max_points q =
     (case points q of
        Some p \<Rightarrow> p
      | None \<Rightarrow>
          let t = qtype q
          in if t = pystr_of ''single'' then 1
             else if t = pystr_of ''matching'' then of_nat (answer_len q)
             else if t = pystr_of ''tf_list'' then of_nat (opt_len (items q))
             else if t = pystr_of ''ordering'' then of_nat (opt_len (options q))
             else if startswith t (pystr_of ''free_text'') then 2
             else 1)"

section \<open>Grading\<close>

text \<open>
  The entries of \<^verbatim>\<open>details\<close>, one constructor per shape of the dictionary that
  \<^verbatim>\<open>grade_answers\<close> stores: \<open>SingleDetail student correct score\<close>,
  \<open>MatchingDetail student_map correct_map matched_pairs total_pairs score\<close>,
  \<open>ListDetail type student correct matched total score\<close> (true/false list and ordering),
  \<open>FreeTextDetail type student keywords_found keywords_total auto_score\<close> and
  \<open>OtherDetail type student\<close>.
\<close>

datatype detail =
    SingleDetail pystr pystr rat
  | MatchingDetail "(pystr \<times> int) list" "(pystr \<times> int) list" nat nat rat
  | ListDetail pystr "pystr list" "pystr list" nat nat rat
  | FreeTextDetail pystr pystr nat nat rat
  | OtherDetail pystr pystr

text \<open>
  How each branch reads \<^verbatim>\<open>q.get("answer", ...)\<close>. A single choice calls
  \<^verbatim>\<open>(s or "").strip()\<close> and a matching calls \<^verbatim>\<open>.items()\<close>: a value of another
  shape raises \<^verbatim>\<open>AttributeError\<close>, unless it is empty and \<^verbatim>\<open>or\<close> replaces it. The
  list branches iterate, which a string (its characters) and a dictionary (its keys)
  allow as well.
\<close>

definition answer_choice :: "question \<Rightarrow> py_error + pystr" where
  "answer_choice q =
     (case answer q of
        None \<Rightarrow> Inr []
      | Some (Choice s) \<Rightarrow> Inr s
      | Some (Pairs m) \<Rightarrow> if m = [] then Inr [] else Inl AttributeError
      | Some (Sequence l) \<Rightarrow> if l = [] then Inr [] else Inl AttributeError)"

definition answer_items :: "question \<Rightarrow> py_error + (pystr \<times> int) list" where
  "answer_items q =
     (case answer q of
        None \<Rightarrow> Inr []
      | Some (Pairs m) \<Rightarrow> Inr m
      | Some (Choice s) \<Rightarrow> Inl AttributeError
      | Some (Sequence l) \<Rightarrow> Inl AttributeError)"

definition answer_iter :: "question \<Rightarrow> pystr list" where
  "answer_iter q =
     (case answer q of
        None \<Rightarrow> []
      | Some (Sequence l) \<Rightarrow> l
      | Some (Choice s) \<Rightarrow> map (\<lambda>c. [c]) s
      | Some (Pairs m) \<Rightarrow> map fst m)"

text \<open>The two counting loops of \<^verbatim>\<open>grade_answers\<close>.\<close>

definition count_pairs :: "(pystr \<times> int) list \<Rightarrow> (pystr \<times> int) list \<Rightarrow> nat" where
  "count_pairs s_map correct_map =
     length (filter (\<lambda>(left_key, corr). map_of s_map left_key = Some corr) correct_map)"

definition count_positions :: "pystr list \<Rightarrow> pystr list \<Rightarrow> nat" where
  "count_positions parts correct =
     length (filter (\<lambda>(i, exp). i < length parts \<and> parts ! i = exp) (enumerate 0 correct))"

text \<open>\<^verbatim>\<open>matched * (pts / max(1, n))\<close>.\<close>

definition partial_credit :: "nat \<Rightarrow> rat \<Rightarrow> nat \<Rightarrow> py_error + rat" where
  "partial_credit matched pts n =
     (case py_div pts (of_nat (max 1 n)) of
        Inl e \<Rightarrow> Inl e
      | Inr per_item \<Rightarrow> Inr (of_nat matched * per_item))"

text \<open>
  One branch of the \<^verbatim>\<open>if\<close>/\<^verbatim>\<open>elif\<close> chain each: the value of \<^verbatim>\<open>score\<close> when the
  chain is left, whether \<^verbatim>\<open>manual_needed\<close> was set, and the entry of \<^verbatim>\<open>details\<close>.
\<close>

definition grade_single :: "question \<Rightarrow> rat \<Rightarrow> pystr \<Rightarrow> py_error + rat \<times> bool \<times> detail" where
  "grade_single q pts student_ans =
     (case answer_choice q of
        Inl e \<Rightarrow> Inl e
      | Inr a \<Rightarrow>
          let correct = normalize_choice a;
              got = normalize_choice student_ans;
              score = (if got = correct then pts else 0)
          in Inr (score, False, SingleDetail got correct score))"

definition grade_matching :: "question \<Rightarrow> rat \<Rightarrow> pystr \<Rightarrow> py_error + rat \<times> bool \<times> detail" where
  "grade_matching q pts student_ans =
     (case answer_items q of
        Inl e \<Rightarrow> Inl e
      | Inr kvs \<Rightarrow>
          let correct_map = foldl (\<lambda>d (k, v). dict_set d (lower k) v) [] kvs
          in case parse_matching_input student_ans of
               Inl e \<Rightarrow> Inl e
             | Inr s_map \<Rightarrow>
                 let matched = count_pairs s_map correct_map
                 in case partial_credit matched pts (length correct_map) of
                      Inl e \<Rightarrow> Inl e
                    | Inr score \<Rightarrow>
                        Inr (score, False,
                             MatchingDetail s_map correct_map matched (length correct_map)
                               (round2 score)))"

definition grade_sequence ::
  "pystr \<Rightarrow> pystr list \<Rightarrow> pystr list \<Rightarrow> rat \<Rightarrow> py_error + rat \<times> bool \<times> detail" where
  "grade_sequence tag correct parts pts =
     (let matched = count_positions parts correct
      in case partial_credit matched pts (length correct) of
           Inl e \<Rightarrow> Inl e
         | Inr score \<Rightarrow>
             Inr (score, False,
                  ListDetail tag parts correct matched (length correct) (round2 score)))"

definition grade_tf_list :: "question \<Rightarrow> rat \<Rightarrow> pystr \<Rightarrow> py_error + rat \<times> bool \<times> detail" where
  "grade_tf_list q pts student_ans =
     grade_sequence (pystr_of ''tf_list'') (map upper (answer_iter q))
       (parse_tf_list_input student_ans) pts"

definition grade_ordering :: "question \<Rightarrow> rat \<Rightarrow> pystr \<Rightarrow> py_error + rat \<times> bool \<times> detail" where
  "grade_ordering q pts student_ans =
     grade_sequence (pystr_of ''ordering'') (map lower (answer_iter q))
       (parse_ordering_input student_ans) pts"

definition grade_free_text :: "question \<Rightarrow> rat \<Rightarrow> pystr \<Rightarrow> py_error + rat \<times> bool \<times> detail" where
  "grade_free_text q pts student_ans =
     (let kws = (case q_keywords q of None \<Rightarrow> [] | Some ks \<Rightarrow> map lower ks)
      in if strip student_ans \<noteq> [] \<and> kws \<noteq> [] then
           let low = lower student_ans;
               found = length (filter (contains low) kws)
           in case (if kws \<noteq> [] then py_div (of_nat found) (of_nat (length kws)) else Inr 0) of
                Inl e \<Rightarrow> Inl e
              | Inr ratio \<Rightarrow>
                  let score = round2 (min pts (pts * ratio))
                  in Inr (score, True,
                          FreeTextDetail (qtype q) student_ans found (length kws) score)
         else Inr (0, True, FreeTextDetail (qtype q) student_ans 0 (length kws) 0))"

definition grade_question :: "question \<Rightarrow> rat \<Rightarrow> pystr \<Rightarrow> py_error + rat \<times> bool \<times> detail" where
  "grade_question q pts student_ans =
     (let t = qtype q
      in if t = pystr_of ''single'' then grade_single q pts student_ans
         else if t = pystr_of ''matching'' then grade_matching q pts student_ans
         else if t = pystr_of ''tf_list'' then grade_tf_list q pts student_ans
         else if t = pystr_of ''ordering'' then grade_ordering q pts student_ans
         else if startswith t (pystr_of ''free_text'') then grade_free_text q pts student_ans
         else Inr (0, False, OtherDetail t student_ans))"

text \<open>The local variables of \<^verbatim>\<open>grade_answers\<close>, and the dictionary it returns.\<close>

record grading_state =
  st_total :: rat
  st_max_total :: rat
  st_auto_score :: rat
  st_manual_needed :: bool
  st_per_q_scores :: "(pystr \<times> rat) list"
  st_details :: "(pystr \<times> detail) list"

record grading_result =
  score :: rat
  max_score :: rat
  auto_score :: rat
  manual_needed :: bool
  per_q_scores :: "(pystr \<times> rat) list"
  details :: "(pystr \<times> detail) list"

definition initial_state :: grading_state where
  "initial_state =
     \<lparr>st_total = 0, st_max_total = 0, st_auto_score = 0, st_manual_needed = False,
      st_per_q_scores = [], st_details = []\<rparr>"

text \<open>\<^verbatim>\<open>answers.get(qid, "")\<close>.\<close>

definition get_answer :: "answers \<Rightarrow> pystr \<Rightarrow> pystr" where
  "get_answer answers k = (case answers k of None \<Rightarrow> [] | Some a \<Rightarrow> a)"

text \<open>One turn of the loop over \<^verbatim>\<open>test["questions"]\<close>.\<close>

definition grade_step :: "answers \<Rightarrow> grading_state \<Rightarrow> question \<Rightarrow> py_error + grading_state" where
  "grade_step answers st q =
     (let pts = question_max_points q;
          student_ans = get_answer answers (qid q)
      in case grade_question q pts student_ans of
           Inl e \<Rightarrow> Inl e
         | Inr (raw, manual, d) \<Rightarrow>
             let rounded = round2 raw
             in Inr \<lparr>st_total = st_total st + rounded,
                     st_max_total = st_max_total st + pts,
                     st_auto_score = st_auto_score st + rounded,
                     st_manual_needed = (st_manual_needed st \<or> manual),
                     st_per_q_scores = dict_set (st_per_q_scores st) (qid q) rounded,
                     st_details = dict_set (st_details st) (qid q) d\<rparr>)"

text \<open>
  The value that the turn for \<open>q\<close> stores in \<^verbatim>\<open>per_q_scores[qid]\<close> and adds to
  \<^verbatim>\<open>total\<close> and \<^verbatim>\<open>auto_score\<close>.
\<close>

definition question_score :: "answers \<Rightarrow> question \<Rightarrow> py_error + rat" where
  "question_score answers q =
     (case grade_question q (question_max_points q) (get_answer answers (qid q)) of
        Inl e \<Rightarrow> Inl e
      | Inr (raw, manual, d) \<Rightarrow> Inr (round2 raw))"

fun grade_loop :: "answers \<Rightarrow> grading_state \<Rightarrow> question list \<Rightarrow> py_error + grading_state" where
  "grade_loop answers st [] = Inr st"
| "grade_loop answers st (q # qs) =
     (case grade_step answers st q of
        Inl e \<Rightarrow> Inl e
      | Inr st' \<Rightarrow> grade_loop answers st' qs)"

definition grade_answers :: "test \<Rightarrow> answers \<Rightarrow> py_error + grading_result" where
  "grade_answers t answers =
     (case grade_loop answers initial_state (questions t) of
        Inl e \<Rightarrow> Inl e
      | Inr st \<Rightarrow>
          Inr \<lparr>score = round2 (st_total st),
               max_score = round2 (st_max_total st),
               auto_score = round2 (st_auto_score st),
               manual_needed = st_manual_needed st,
               per_q_scores = st_per_q_scores st,
               details = st_details st\<rparr>)"

section \<open>Properties of questions and example tests\<close>

text \<open>
  The last branch of the chain: a type tag that is none of the four fixed tags and does
  not start with \<^verbatim>\<open>free_text\<close>.
\<close>

definition unrecognized :: "question \<Rightarrow> bool" where
  "unrecognized q =
     (qtype q \<noteq> pystr_of ''single'' \<and> qtype q \<noteq> pystr_of ''matching''
      \<and> qtype q \<noteq> pystr_of ''tf_list'' \<and> qtype q \<noteq> pystr_of ''ordering''
      \<and> \<not> startswith (qtype q) (pystr_of ''free_text''))"

text \<open>A maximum that is not negative and has at most two decimal digits.\<close>

definition plain_points :: "question \<Rightarrow> bool" where
  "plain_points q =
     (0 \<le> question_max_points q \<and> round2 (question_max_points q) = question_max_points q)"

text \<open>
  The answer key has the shape that the branch of the question's type reads without
  raising.
\<close>

definition well_shaped :: "question \<Rightarrow> bool" where
  "well_shaped q =
     (if qtype q = pystr_of ''single'' then answer_choice q \<noteq> Inl AttributeError
      else if qtype q = pystr_of ''matching'' then answer_items q \<noteq> Inl AttributeError
      else True)"

text \<open>The answer holds no number that \<^verbatim>\<open>int\<close> refuses, where the branch parses numbers.\<close>

definition answer_parses :: "question \<Rightarrow> pystr \<Rightarrow> bool" where
  "answer_parses q student_ans =
     (if qtype q = pystr_of ''matching'' then parse_matching_input student_ans \<noteq> Inl ValueError
      else True)"

text \<open>
  The scenarios of the specification as one test: a single choice answered rightly, a
  matching with two pairs of three right, a true/false list with two positions of three
  right, and a free text that holds both keywords.
\<close>

definition plain_question :: "string \<Rightarrow> string \<Rightarrow> question" where
  "plain_question i t =
     \<lparr>qid = pystr_of i, qtype = pystr_of t, points = None, answer = None, items = None,
      options = None, q_keywords = None\<rparr>"

definition demo_single :: question where
  "demo_single = (plain_question ''q1'' ''single'')
     \<lparr>answer := Some (Choice (pystr_of ''a'')),
      options := Some (map pystr_of [''Paris'', ''London''])\<rparr>"

definition demo_matching :: question where
  "demo_matching = (plain_question ''q2'' ''matching'')
     \<lparr>answer := Some (Pairs [(pystr_of ''a'', 2), (pystr_of ''b'', 1), (pystr_of ''c'', 4)])\<rparr>"

definition demo_tf_list :: question where
  "demo_tf_list = (plain_question ''q3'' ''tf_list'')
     \<lparr>answer := Some (Sequence (map pystr_of [''T'', ''F'', ''T''])),
      items := Some (map pystr_of [''one'', ''two'', ''three''])\<rparr>"

definition demo_free_text :: question where
  "demo_free_text = (plain_question ''q4'' ''free_text'')
     \<lparr>q_keywords := Some (map pystr_of [''mitosis'', ''cell''])\<rparr>"

definition demo_test :: test where
  "demo_test =
     \<lparr>test_id = pystr_of ''demo'', title = pystr_of ''Demo'',
      questions = [demo_single, demo_matching, demo_tf_list, demo_free_text]\<rparr>"

definition demo_answers :: answers where
  "demo_answers =
     map_of [(pystr_of ''q1'', pystr_of ''a''),
             (pystr_of ''q2'', pystr_of ''a-2 b-3 c-4''),
             (pystr_of ''q3'', pystr_of ''TFF''),
             (pystr_of ''q4'', pystr_of ''the process of mitosis splits the cell'')]"

definition demo_result :: grading_result where
  "demo_result =
     \<lparr>score = 7, max_score = 9, auto_score = 7, manual_needed = True,
      per_q_scores =
        [(pystr_of ''q1'', 1), (pystr_of ''q2'', 2), (pystr_of ''q3'', 2), (pystr_of ''q4'', 2)],
      details =
        [(pystr_of ''q1'', SingleDetail (pystr_of ''a'') (pystr_of ''a'') 1),
         (pystr_of ''q2'',
          MatchingDetail [(pystr_of ''a'', 2), (pystr_of ''b'', 3), (pystr_of ''c'', 4)]
            [(pystr_of ''a'', 2), (pystr_of ''b'', 1), (pystr_of ''c'', 4)] 2 3 2),
         (pystr_of ''q3'',
          ListDetail (pystr_of ''tf_list'') (map pystr_of [''T'', ''F'', ''F''])
            (map pystr_of [''T'', ''F'', ''T'']) 2 3 2),
         (pystr_of ''q4'',
          FreeTextDetail (pystr_of ''free_text'')
            (pystr_of ''the process of mitosis splits the cell'') 2 2 2)]\<rparr>"

text \<open>A single choice worth 0.375 points, answered rightly.\<close>

definition eighths_single :: question where
  "eighths_single = (plain_question ''q1'' ''single'')
     \<lparr>points := Some (3 / 8), answer := Some (Choice (pystr_of ''a''))\<rparr>"

definition eighths_test :: test where
  "eighths_test =
     \<lparr>test_id = pystr_of ''eighths'', title = pystr_of ''Eighths'', questions = [eighths_single]\<rparr>"

definition eighths_result :: grading_result where
  "eighths_result =
     \<lparr>score = 19 / 50, max_score = 19 / 50, auto_score = 19 / 50, manual_needed = False,
      per_q_scores = [(pystr_of ''q1'', 19 / 50)],
      details = [(pystr_of ''q1'', SingleDetail (pystr_of ''a'') (pystr_of ''a'') (3 / 8))]\<rparr>"

text \<open>
  A question of the unknown type \<^verbatim>\<open>essay\<close>, after the single choice of the demo; and
  the same question before a single choice worth -1 points, with no answer given.
\<close>

definition demo_essay :: question where
  "demo_essay = plain_question ''q5'' ''essay''"

definition essay_test :: test where
  "essay_test =
     \<lparr>test_id = pystr_of ''essay'', title = pystr_of ''Essay'',
      questions = [demo_single, demo_essay]\<rparr>"

definition essay_result :: grading_result where
  "essay_result =
     \<lparr>score = 1, max_score = 2, auto_score = 1, manual_needed = False,
      per_q_scores = [(pystr_of ''q1'', 1), (pystr_of ''q5'', 0)],
      details =
        [(pystr_of ''q1'', SingleDetail (pystr_of ''a'') (pystr_of ''a'') 1),
         (pystr_of ''q5'', OtherDetail (pystr_of ''essay'') [])]\<rparr>"

definition penalty_single :: question where
  "penalty_single = (plain_question ''q6'' ''single'')
     \<lparr>points := Some (- 1), answer := Some (Choice (pystr_of ''a''))\<rparr>"

definition penalty_test :: test where
  "penalty_test =
     \<lparr>test_id = pystr_of ''penalty'', title = pystr_of ''Penalty'',
      questions = [demo_essay, penalty_single]\<rparr>"

definition penalty_result :: grading_result where
  "penalty_result =
     \<lparr>score = 0, max_score = 0, auto_score = 0, manual_needed = False,
      per_q_scores = [(pystr_of ''q5'', 0), (pystr_of ''q6'', 0)],
      details =
        [(pystr_of ''q5'', OtherDetail (pystr_of ''essay'') []),
         (pystr_of ''q6'', SingleDetail [] (pystr_of ''a'') 0)]\<rparr>"

text \<open>
  An answer key with no expected item: the dictionary of a matching is missing or empty,
  the list of a true/false list or of an ordering is missing or empty.
\<close>

definition empty_key :: "question \<Rightarrow> bool" where
  "empty_key q =
     (if qtype q = pystr_of ''matching'' then answer_items q = Inr []
      else if qtype q = pystr_of ''tf_list'' \<or> qtype q = pystr_of ''ordering''
        then answer_iter q = []
      else False)"

text \<open>A matching worth 5 points and an ordering of two options, both with an empty key.\<close>

definition empty_matching :: question where
  "empty_matching = (plain_question ''q7'' ''matching'')\<lparr>points := Some 5\<rparr>"

definition empty_ordering :: question where
  "empty_ordering = (plain_question ''q8'' ''ordering'')
     \<lparr>answer := Some (Sequence []), options := Some (map pystr_of [''x'', ''y''])\<rparr>"

text \<open>
  The words of the specification for a free-text question: the keywords that the
  question declares, how many of them a case-insensitive substring search finds in the
  answer, and \<^verbatim>\<open>min(pts, pts * (found / total))\<close> rounded to two decimals.
\<close>

definition keyword_list :: "question \<Rightarrow> pystr list" where
  "keyword_list q = (case q_keywords q of None \<Rightarrow> [] | Some ks \<Rightarrow> ks)"

definition keywords_found :: "pystr list \<Rightarrow> pystr \<Rightarrow> nat" where
  "keywords_found ks student_ans =
     length (filter (\<lambda>k. contains (lower student_ans) (lower k)) ks)"

definition keyword_share :: "rat \<Rightarrow> pystr list \<Rightarrow> pystr \<Rightarrow> rat" where
  "keyword_share pts ks student_ans =
     round2 (min pts (pts * (of_nat (keywords_found ks student_ans) / of_nat (length ks))))"

text \<open>A free-text question whose only keyword is a space.\<close>

definition blank_keyword_question :: question where
  "blank_keyword_question = (plain_question ''q9'' ''free_text'')
     \<lparr>q_keywords := Some [pystr_of '' '']\<rparr>"

text \<open>
  An ASCII digit, or a character from U+0370 on: Greek, Cyrillic and every later block.
  The Kelvin sign U+212A is left out: Unicode counts it as Latin, and \<^verbatim>\<open>lower\<close> maps it
  to the ASCII letter \<^verbatim>\<open>k\<close>.
\<close>

definition digit_or_non_latin :: "pychar \<Rightarrow> bool" where
  "digit_or_non_latin c = ((48 \<le> c \<and> c \<le> 57) \<or> (880 \<le> c \<and> c \<noteq> 8490))"

text \<open>A token that is one ASCII letter from \<^verbatim>\<open>a\<close> to \<^verbatim>\<open>z\<close>.\<close>

definition single_letter :: "pystr \<Rightarrow> bool" where
  "single_letter p = (case p of [c] \<Rightarrow> is_ascii_lower c | _ \<Rightarrow> False)"

text \<open>An ordering of two options, to be answered in Cyrillic letters and digits.\<close>

definition cyrillic_ordering :: question where
  "cyrillic_ordering = (plain_question ''q10'' ''ordering'')
     \<lparr>answer := Some (Sequence (map pystr_of [''b'', ''a''])),
      options := Some (map pystr_of [''x'', ''y''])\<rparr>"

text \<open>
  \<^verbatim>\<open>sep.join(ls)\<close> for a string \<open>ls\<close> taken as the list of its characters: the
  characters of \<open>ls\<close> with \<open>sep\<close> between each two.
\<close>

definition join_with :: "pychar \<Rightarrow> pystr \<Rightarrow> pystr" where
  "join_with sep ls = (case ls of [] \<Rightarrow> [] | c # cs \<Rightarrow> c # concat (map (\<lambda>d. [sep, d]) cs))"

text \<open>The answer \<^verbatim>\<open>"a" + "1" * 4301\<close>, and a test of the one matching with an empty key.\<close>

definition long_number_answer :: pystr where
  "long_number_answer = 97 # replicate 4301 49"

definition empty_key_test :: test where
  "empty_key_test =
     \<lparr>test_id = pystr_of ''empty'', title = pystr_of ''Empty key'', questions = [empty_matching]\<rparr>"

section \<open>Evaluation of the character tables\<close>

lemma digit_value_ascii:
  assumes "48 \<le> c" and "c \<le> 57"
  shows "digit_value c = Some (c - 48)"
  using assms by (simp add: digit_value_def digit_starts_def)

lemma digit_value_below_48:
  assumes "c < 48"
  shows "digit_value c = None"
  using assms by (simp add: digit_value_def digit_starts_def)

lemma digit_value_below_1632:
  assumes "57 < c" and "c < 1632"
  shows "digit_value c = None"
  using assms by (simp add: digit_value_def digit_starts_def)

lemmas string_eval =
  pystr_of_def replace_def strip_def isspace_def split_def split_on_def lower_def
  lower_char_def upper_def upper_char_def Let_def

lemmas match_eval =
  match_whole_def match_pair_def is_ascii_letter_def is_joiner_def is_digit_def
  digit_value_ascii digit_value_below_48 digit_value_below_1632 store_pair_def
  py_int_def

section \<open>Rounding to two decimals\<close>

lemma round_half_even_of_int: "round_half_even (of_int k) = k"
  by (simp add: round_half_even_def)

lemma round_half_even_lower: "\<lfloor>x\<rfloor> \<le> round_half_even x"
  by (simp add: round_half_even_def Let_def)

lemma round_half_even_upper: "round_half_even x \<le> \<lfloor>x\<rfloor> + 1"
  by (simp add: round_half_even_def Let_def)

lemma round_half_even_mono:
  assumes "x \<le> y"
  shows "round_half_even x \<le> round_half_even y"
proof (cases "\<lfloor>x\<rfloor> = \<lfloor>y\<rfloor>")
  case True
  then show ?thesis
    using assms by (auto simp add: round_half_even_def Let_def)
next
  case False
  have "\<lfloor>x\<rfloor> \<le> \<lfloor>y\<rfloor>" using assms by (rule floor_mono)
  with False have "\<lfloor>x\<rfloor> + 1 \<le> \<lfloor>y\<rfloor>" by simp
  with round_half_even_upper [of x] round_half_even_lower [of y] show ?thesis by linarith
qed

lemma round2_hundredth: "round2 (of_int k / 100) = of_int k / 100"
  by (simp add: round2_def round_half_even_of_int)

lemma round2_round2: "round2 (round2 x) = round2 x"
  unfolding round2_def [of x] by (rule round2_hundredth)

lemma round2_0: "round2 0 = 0"
  using round2_hundredth [of 0] by simp

lemma round2_mono: "x \<le> y \<Longrightarrow> round2 x \<le> round2 y"
  by (simp add: round2_def round_half_even_mono divide_right_mono)

text \<open>
  Rounding absorbs an excess below half a hundredth: a value that lies less than 0.005
  above a number of two decimals rounds to that number at most.
\<close>

lemma round2_absorbs:
  assumes "round2 p = p" and "x < p + 1 / 200"
  shows "round2 x \<le> p"
proof -
  define k where "k = round_half_even (p * 100)"
  from assms(1) have p: "p = of_int k / 100" by (simp add: round2_def k_def)
  have f: "\<lfloor>x * 100\<rfloor> \<le> k"
  proof -
    from assms(2) p have "x * 100 < of_int (k + 1)" by simp
    then have "\<lfloor>x * 100\<rfloor> < k + 1" by (simp only: floor_less_iff)
    then show ?thesis by simp
  qed
  have "round_half_even (x * 100) \<le> k"
  proof (cases "\<lfloor>x * 100\<rfloor> = k")
    case True
    from assms(2) p have "x * 100 - of_int k < 1 / 2" by simp
    with True show ?thesis by (simp add: round_half_even_def)
  next
    case False
    with f have "\<lfloor>x * 100\<rfloor> + 1 \<le> k" by simp
    with round_half_even_upper [of "x * 100"] show ?thesis by linarith
  qed
  then have "round2 x \<le> of_int k / 100"
    by (simp add: round2_def divide_right_mono)
  with p show ?thesis by simp
qed

lemma round2_of_nat: "round2 (of_nat n) = of_nat n"
  using round2_hundredth [of "100 * int n"] by simp

lemma round2_add: "round2 (round2 x + round2 y) = round2 x + round2 y"
proof -
  have "round2 x + round2 y = of_int (round_half_even (x * 100) + round_half_even (y * 100)) / 100"
    by (simp add: round2_def add_divide_distrib)
  then show ?thesis by (simp only: round2_hundredth)
qed


lemma round_half_even_near:
  assumes "\<bar>x - of_int k\<bar> < 1 / 2"
  shows "round_half_even x = k"
proof (cases "of_int k \<le> x")
  case True
  with assms have "\<lfloor>x\<rfloor> = k" by (intro floor_unique) auto
  with assms True show ?thesis by (simp add: round_half_even_def)
next
  case False
  with assms have f: "\<lfloor>x\<rfloor> = k - 1" by (intro floor_unique) auto
  from assms False have "1 / 2 < x - of_int (k - 1)" by simp
  with f show ?thesis by (simp add: round_half_even_def)
qed

lemma round_half_even_tie:
  assumes "x = of_int k + 1 / 2"
  shows "round_half_even x = (if even k then k else k + 1)"
proof -
  have "\<lfloor>x\<rfloor> = k" using assms by (intro floor_unique) auto
  with assms show ?thesis by (simp add: round_half_even_def)
qed

lemma round2_near:
  assumes "\<bar>x * 100 - of_int k\<bar> < 1 / 2"
  shows "round2 x = of_int k / 100"
  using round_half_even_near [OF assms] by (simp add: round2_def)

lemma round2_tie:
  assumes "x * 100 = of_int k + 1 / 2"
  shows "round2 x = of_int (if even k then k else k + 1) / 100"
  using round_half_even_tie [OF assms] by (simp add: round2_def)

lemma round2_one_two: "round2 1 = 1" "round2 2 = 2"
  using round2_of_nat [of 1] round2_of_nat [of 2] by simp_all

section \<open>The branches of the chain\<close>

lemma tags_not_free_text:
  "\<not> startswith (pystr_of ''single'') (pystr_of ''free_text'')"
  "\<not> startswith (pystr_of ''matching'') (pystr_of ''free_text'')"
  "\<not> startswith (pystr_of ''tf_list'') (pystr_of ''free_text'')"
  "\<not> startswith (pystr_of ''ordering'') (pystr_of ''free_text'')"
  by (simp_all add: pystr_of_def)

lemma tags_distinct:
  "pystr_of ''single'' \<noteq> pystr_of ''matching''"
  "pystr_of ''single'' \<noteq> pystr_of ''tf_list''"
  "pystr_of ''single'' \<noteq> pystr_of ''ordering''"
  "pystr_of ''matching'' \<noteq> pystr_of ''tf_list''"
  "pystr_of ''matching'' \<noteq> pystr_of ''ordering''"
  "pystr_of ''tf_list'' \<noteq> pystr_of ''ordering''"
  "pystr_of ''matching'' \<noteq> pystr_of ''single''"
  "pystr_of ''tf_list'' \<noteq> pystr_of ''single''"
  "pystr_of ''ordering'' \<noteq> pystr_of ''single''"
  "pystr_of ''tf_list'' \<noteq> pystr_of ''matching''"
  "pystr_of ''ordering'' \<noteq> pystr_of ''matching''"
  "pystr_of ''ordering'' \<noteq> pystr_of ''tf_list''"
  by (simp_all add: pystr_of_def)

lemma partial_credit_value:
  "partial_credit matched pts n = Inr (of_nat matched * (pts / of_nat (max 1 n)))"
  by (simp add: partial_credit_def py_div_def max_def)

lemma grade_sequence_value:
  "grade_sequence tag correct parts pts =
     Inr (of_nat (count_positions parts correct) * (pts / of_nat (max 1 (length correct))), False,
          ListDetail tag parts correct (count_positions parts correct) (length correct)
            (round2 (of_nat (count_positions parts correct) * (pts / of_nat (max 1 (length correct))))))"
  by (simp add: grade_sequence_def partial_credit_value Let_def)

lemma grade_question_manual:
  assumes "grade_question q pts student_ans = Inr (raw, manual, d)"
  shows "manual = startswith (qtype q) (pystr_of ''free_text'')"
  using assms tags_not_free_text
  by (auto simp add: grade_question_def Let_def grade_single_def grade_matching_def
        grade_tf_list_def grade_ordering_def grade_sequence_value grade_free_text_def
        partial_credit_value py_div_def
      split: if_splits sum.splits)


lemma grade_step_Inr:
  assumes "grade_step answers st q = Inr st'"
  shows "\<exists>raw manual d.
           grade_question q (question_max_points q) (get_answer answers (qid q)) = Inr (raw, manual, d)
           \<and> st' = \<lparr>st_total = st_total st + round2 raw,
                     st_max_total = st_max_total st + question_max_points q,
                     st_auto_score = st_auto_score st + round2 raw,
                     st_manual_needed = (st_manual_needed st \<or> manual),
                     st_per_q_scores = dict_set (st_per_q_scores st) (qid q) (round2 raw),
                     st_details = dict_set (st_details st) (qid q) d\<rparr>"
  using assms by (auto simp add: grade_step_def Let_def split: sum.splits)

lemma grade_loop_manual:
  assumes "grade_loop answers st qs = Inr st'"
  shows "st_manual_needed st' =
           (st_manual_needed st \<or> list_ex (\<lambda>q. startswith (qtype q) (pystr_of ''free_text'')) qs)"
  using assms
proof (induction qs arbitrary: st)
  case Nil
  then show ?case by simp
next
  case (Cons q qs)
  from Cons.prems obtain st1 where s: "grade_step answers st q = Inr st1"
    and l: "grade_loop answers st1 qs = Inr st'"
    by (auto split: sum.splits)
  from grade_step_Inr [OF s] obtain raw manual d where
    g: "grade_question q (question_max_points q) (get_answer answers (qid q)) = Inr (raw, manual, d)"
    and m: "st_manual_needed st1 = (st_manual_needed st \<or> manual)"
    by auto
  from grade_question_manual [OF g] m Cons.IH [OF l] show ?case by auto
qed

section \<open>The loop over the questions\<close>

lemma dict_set_fresh:
  assumes "k \<notin> fst ` set d"
  shows "dict_set d k v = d @ [(k, v)]"
  using assms by (induction d) auto

lemma map_of_dict_set: "map_of (dict_set d k v) = (map_of d)(k \<mapsto> v)"
  by (induction d) auto

lemma grade_step_score:
  assumes "grade_step answers st q = Inr st'"
  shows "\<exists>v. question_score answers q = Inr v
           \<and> st_total st' = st_total st + v
           \<and> st_auto_score st' = st_auto_score st + v
           \<and> st_max_total st' = st_max_total st + question_max_points q
           \<and> st_per_q_scores st' = dict_set (st_per_q_scores st) (qid q) v"
  using grade_step_Inr [OF assms] by (auto simp add: question_score_def)

lemma grade_loop_unfold:
  assumes "grade_loop answers st qs = Inr st'"
  shows "\<exists>vs. list_all2 (\<lambda>q v. question_score answers q = Inr v) qs vs
           \<and> st_total st' = st_total st + sum_list vs
           \<and> st_auto_score st' = st_auto_score st + sum_list vs
           \<and> st_max_total st' = st_max_total st + sum_list (map question_max_points qs)
           \<and> (distinct (map qid qs) \<and> qid ` set qs \<inter> fst ` set (st_per_q_scores st) = {}
                \<longrightarrow> st_per_q_scores st' = st_per_q_scores st @ zip (map qid qs) vs)"
  using assms
proof (induction qs arbitrary: st)
  case Nil
  then show ?case by simp
next
  case (Cons q qs)
  from Cons.prems obtain st1 where s: "grade_step answers st q = Inr st1"
    and l: "grade_loop answers st1 qs = Inr st'"
    by (auto split: sum.splits)
  from grade_step_score [OF s] obtain v where
    v: "question_score answers q = Inr v"
    and t1: "st_total st1 = st_total st + v"
    and a1: "st_auto_score st1 = st_auto_score st + v"
    and m1: "st_max_total st1 = st_max_total st + question_max_points q"
    and p1: "st_per_q_scores st1 = dict_set (st_per_q_scores st) (qid q) v"
    by blast
  from Cons.IH [OF l] obtain vs where
    n2: "list_all2 (\<lambda>q v. question_score answers q = Inr v) qs vs"
    and n3: "st_total st' = st_total st1 + sum_list vs"
    and n4: "st_auto_score st' = st_auto_score st1 + sum_list vs"
    and n5: "st_max_total st' = st_max_total st1 + sum_list (map question_max_points qs)"
    and n1: "distinct (map qid qs) \<and> qid ` set qs \<inter> fst ` set (st_per_q_scores st1) = {}
               \<longrightarrow> st_per_q_scores st' = st_per_q_scores st1 @ zip (map qid qs) vs"
    by blast
  have "list_all2 (\<lambda>q v. question_score answers q = Inr v) (q # qs) (v # vs)"
    using n2 v by simp
  moreover have "st_total st' = st_total st + sum_list (v # vs)"
    using n3 t1 by simp
  moreover have "st_auto_score st' = st_auto_score st + sum_list (v # vs)"
    using n4 a1 by simp
  moreover have "st_max_total st' = st_max_total st + sum_list (map question_max_points (q # qs))"
    using n5 m1 by simp
  moreover have "st_per_q_scores st' = st_per_q_scores st @ zip (map qid (q # qs)) (v # vs)"
    if d: "distinct (map qid (q # qs))"
      and i: "qid ` set (q # qs) \<inter> fst ` set (st_per_q_scores st) = {}"
  proof -
    from i have fresh: "qid q \<notin> fst ` set (st_per_q_scores st)" by auto
    have p: "st_per_q_scores st1 = st_per_q_scores st @ [(qid q, v)]"
      using p1 dict_set_fresh [OF fresh] by simp
    have "qid ` set qs \<inter> fst ` set (st_per_q_scores st1) = {}"
      using d i p by auto
    with n1 d have "st_per_q_scores st' = st_per_q_scores st1 @ zip (map qid qs) vs" by simp
    with p show ?thesis by simp
  qed
  ultimately show ?case by blast
qed

lemma score_eq_auto_score:
  assumes "grade_answers t answers = Inr r"
  shows "score r = auto_score r"
proof -
  from assms obtain st where l: "grade_loop answers initial_state (questions t) = Inr st"
    and s: "score r = round2 (st_total st)" and a: "auto_score r = round2 (st_auto_score st)"
    by (auto simp add: grade_answers_def split: sum.splits)
  from grade_loop_unfold [OF l] have "st_total st = st_auto_score st"
    by (auto simp add: initial_state_def)
  with s a show ?thesis by simp
qed

lemma max_score_is_sum_of_points:
  assumes "grade_answers t answers = Inr r"
  shows "max_score r = round2 (sum_list (map question_max_points (questions t)))"
proof -
  from assms obtain st where l: "grade_loop answers initial_state (questions t) = Inr st"
    and m: "max_score r = round2 (st_max_total st)"
    by (auto simp add: grade_answers_def split: sum.splits)
  from grade_loop_unfold [OF l] m show ?thesis by (auto simp add: initial_state_def)
qed

lemma sum_list_hundredths:
  assumes "list_all (\<lambda>v. round2 v = v) vs"
  shows "round2 (sum_list vs) = sum_list vs"
  using assms
proof (induction vs)
  case Nil
  then show ?case by (simp add: round2_0)
next
  case (Cons v vs)
  then have "round2 v = v" and "round2 (sum_list vs) = sum_list vs" by simp_all
  with round2_add [of v "sum_list vs"] show ?case by simp
qed

lemma question_score_hundredth:
  assumes "question_score answers q = Inr v"
  shows "round2 v = v"
  using assms by (auto simp add: question_score_def round2_round2 split: sum.splits)

lemma scores_hundredths:
  assumes "list_all2 (\<lambda>q v. question_score answers q = Inr v) qs vs"
  shows "list_all (\<lambda>v. round2 v = v) vs"
  using assms by (induction rule: list_all2_induct) (auto dest: question_score_hundredth)

lemma count_pairs_le: "count_pairs s_map correct_map \<le> length correct_map"
  by (simp add: count_pairs_def)

lemma count_positions_le: "count_positions parts correct \<le> length correct"
proof -
  have "count_positions parts correct \<le> length (enumerate 0 correct)"
    unfolding count_positions_def by (rule length_filter_le)
  then show ?thesis by simp
qed

lemma share_bounds:
  fixes pts :: rat
  assumes "m \<le> n" and "0 \<le> pts"
  shows "0 \<le> of_nat m * (pts / of_nat (max 1 n))"
    and "of_nat m * (pts / of_nat (max 1 n)) \<le> pts"
proof -
  have pos: "(0::rat) < of_nat (max 1 n)" by simp
  show "0 \<le> of_nat m * (pts / of_nat (max 1 n))"
    using assms(2) by simp
  have "(of_nat m :: rat) \<le> of_nat (max 1 n)" using assms(1) by simp
  then have "of_nat m * pts \<le> of_nat (max 1 n) * pts"
    using assms(2) by (rule mult_right_mono)
  then have "of_nat m * pts / of_nat (max 1 n) \<le> pts"
    using pos by (simp add: pos_divide_le_eq mult.commute)
  then show "of_nat m * (pts / of_nat (max 1 n)) \<le> pts" by simp
qed

text \<open>
  The same bound under the rounding errors of binary floating point. In the standard
  model each operation returns its exact result times \<open>1 + d\<close>, with \<open>d\<close> at most
  \<open>1 / 2 ^ 53\<close> in absolute value;
  for a maximum of at most a million the two errors of \<^verbatim>\<open>matched * (pts / max(1, n))\<close>
  stay below half a hundredth, so the rounded share does not exceed the maximum.
\<close>

lemma share_rounding_robust:
  fixes pts d1 d2 :: rat
  assumes "m \<le> n" and "0 \<le> pts" and "pts \<le> 1000000" and "round2 pts = pts"
    and "\<bar>d1\<bar> \<le> 1 / 9007199254740992" and "\<bar>d2\<bar> \<le> 1 / 9007199254740992"
  shows "round2 (of_nat m * (pts / of_nat (max 1 n) * (1 + d1)) * (1 + d2)) \<le> pts"
proof -
  let ?u = "1 / 9007199254740992 :: rat"
  let ?e = "of_nat m * (pts / of_nat (max 1 n))"
  have e0: "0 \<le> ?e" and e1: "?e \<le> pts"
    using share_bounds [OF assms(1,2)] by simp_all
  have a: "0 \<le> 1 + d1" "1 + d1 \<le> 1 + ?u" "0 \<le> 1 + d2" "1 + d2 \<le> 1 + ?u"
    using assms(5,6) by (simp_all add: abs_le_iff)
  have u0: "0 \<le> 1 + ?u" by simp
  have xy: "(1 + d1) * (1 + d2) \<le> (1 + ?u) * (1 + ?u)"
    by (rule mult_mono [OF a(2) a(4) u0 a(3)])
  have x0: "0 \<le> (1 + d1) * (1 + d2)" using a(1,3) by (rule mult_nonneg_nonneg)
  have "?e * ((1 + d1) * (1 + d2)) \<le> pts * ((1 + ?u) * (1 + ?u))"
    by (rule mult_mono [OF e1 xy assms(2) x0])
  also have "pts * ((1 + ?u) * (1 + ?u)) = pts + pts * (2 * ?u + ?u * ?u)"
    by (simp add: algebra_simps)
  also have "\<dots> < pts + 1 / 200"
  proof -
    have "pts * (2 * ?u + ?u * ?u) \<le> 1000000 * (2 * ?u + ?u * ?u)"
      using assms(3) by (intro mult_right_mono) simp_all
    also have "\<dots> < 1 / 200" by simp
    finally show ?thesis by simp
  qed
  finally have "?e * ((1 + d1) * (1 + d2)) < pts + 1 / 200" .
  then have "of_nat m * (pts / of_nat (max 1 n) * (1 + d1)) * (1 + d2) < pts + 1 / 200"
    by (simp add: mult.assoc)
  from round2_absorbs [OF assms(4) this] show ?thesis .
qed

lemma ratio_bounds:
  fixes pts :: rat
  assumes "m \<le> n" and "0 < n" and "0 \<le> pts"
  shows "0 \<le> min pts (pts * (of_nat m / of_nat n))"
    and "min pts (pts * (of_nat m / of_nat n)) \<le> pts"
proof -
  have "0 \<le> pts * (of_nat m / of_nat n)" using assms(3) by simp
  with assms(3) show "0 \<le> min pts (pts * (of_nat m / of_nat n))" by simp
  show "min pts (pts * (of_nat m / of_nat n)) \<le> pts" by simp
qed

lemma grade_question_bounds:
  assumes "grade_question q pts student_ans = Inr (raw, manual, d)" and "0 \<le> pts"
  shows "0 \<le> round2 raw \<and> round2 raw \<le> round2 pts"
proof -
  have r0: "0 \<le> x \<Longrightarrow> 0 \<le> round2 x" for x
    using round2_mono [of 0 x] by (simp add: round2_0)
  have z: "0 \<le> round2 0 \<and> round2 0 \<le> round2 pts"
    using r0 [OF assms(2)] by (simp add: round2_0)
  have share: "0 \<le> round2 (of_nat m * (pts / of_nat (max 1 n)))
               \<and> round2 (of_nat m * (pts / of_nat (max 1 n))) \<le> round2 pts" if "m \<le> n" for m n
    using share_bounds [OF that assms(2)] r0 round2_mono by blast
  consider (single) "qtype q = pystr_of ''single''"
    | (matching) "qtype q \<noteq> pystr_of ''single''" "qtype q = pystr_of ''matching''"
    | (tf) "qtype q \<noteq> pystr_of ''single''" "qtype q \<noteq> pystr_of ''matching''"
        "qtype q = pystr_of ''tf_list''"
    | (ordering) "qtype q \<noteq> pystr_of ''single''" "qtype q \<noteq> pystr_of ''matching''"
        "qtype q \<noteq> pystr_of ''tf_list''" "qtype q = pystr_of ''ordering''"
    | (free) "qtype q \<noteq> pystr_of ''single''" "qtype q \<noteq> pystr_of ''matching''"
        "qtype q \<noteq> pystr_of ''tf_list''" "qtype q \<noteq> pystr_of ''ordering''"
        "startswith (qtype q) (pystr_of ''free_text'')"
    | (other) "qtype q \<noteq> pystr_of ''single''" "qtype q \<noteq> pystr_of ''matching''"
        "qtype q \<noteq> pystr_of ''tf_list''" "qtype q \<noteq> pystr_of ''ordering''"
        "\<not> startswith (qtype q) (pystr_of ''free_text'')"
    by blast
  then show ?thesis
  proof cases
    case single
    with assms(1) have "raw = pts \<or> raw = 0"
      by (auto simp add: grade_question_def grade_single_def Let_def split: sum.splits if_splits)
    with z r0 [OF assms(2)] show ?thesis by auto
  next
    case matching
    with assms(1) obtain s_map correct_map where e:
      "raw = of_nat (count_pairs s_map correct_map) * (pts / of_nat (max 1 (length correct_map)))"
      by (auto simp add: grade_question_def grade_matching_def partial_credit_value Let_def
          split: sum.splits)
    show ?thesis unfolding e by (rule share [OF count_pairs_le])
  next
    case tf
    with assms(1) have e:
      "raw = of_nat (count_positions (parse_tf_list_input student_ans) (map upper (answer_iter q)))
               * (pts / of_nat (max 1 (length (map upper (answer_iter q)))))"
      by (simp add: grade_question_def grade_tf_list_def grade_sequence_value Let_def)
    show ?thesis unfolding e by (rule share [OF count_positions_le])
  next
    case ordering
    with assms(1) have e:
      "raw = of_nat (count_positions (parse_ordering_input student_ans) (map lower (answer_iter q)))
               * (pts / of_nat (max 1 (length (map lower (answer_iter q)))))"
      by (simp add: grade_question_def grade_ordering_def grade_sequence_value Let_def)
    show ?thesis unfolding e by (rule share [OF count_positions_le])
  next
    case free
    with assms(1) have g: "grade_free_text q pts student_ans = Inr (raw, manual, d)"
      by (simp add: grade_question_def Let_def)
    define kws where "kws = (case q_keywords q of None \<Rightarrow> [] | Some ks \<Rightarrow> map lower ks)"
    define found where "found = length (filter (contains (lower student_ans)) kws)"
    have fl: "found \<le> length kws" unfolding found_def by (rule length_filter_le)
    from g have "raw = 0 \<or> (kws \<noteq> [] \<and> raw = round2 (min pts (pts * (of_nat found / of_nat (length kws)))))"
      by (auto simp add: grade_free_text_def Let_def py_div_def kws_def found_def
          split: if_splits)
    then show ?thesis
    proof
      assume "raw = 0"
      with z show ?thesis by simp
    next
      assume a: "kws \<noteq> [] \<and> raw = round2 (min pts (pts * (of_nat found / of_nat (length kws))))"
      then have "0 < length kws" by simp
      from ratio_bounds [OF fl this assms(2)] a r0 round2_mono show ?thesis
        by (simp add: round2_round2)
    qed
  next
    case other
    with assms(1) have "raw = 0" by (simp add: grade_question_def Let_def)
    with z show ?thesis by simp
  qed
qed

lemma question_score_bounds:
  assumes "question_score answers q = Inr v" and "0 \<le> question_max_points q"
  shows "0 \<le> v \<and> v \<le> round2 (question_max_points q) \<and> round2 v = v"
proof -
  from assms(1) obtain raw manual d where
    g: "grade_question q (question_max_points q) (get_answer answers (qid q)) = Inr (raw, manual, d)"
    and v: "v = round2 raw"
    by (auto simp add: question_score_def split: sum.splits)
  from grade_question_bounds [OF g assms(2)] v show ?thesis by (simp add: round2_round2)
qed

lemma default_points_plain:
  assumes "points q = None"
  shows "0 \<le> question_max_points q \<and> round2 (question_max_points q) = question_max_points q"
  using assms by (simp add: question_max_points_def Let_def round2_of_nat round2_one_two)

lemma zip_lookup:
  assumes "list_all2 R qs vs" and "distinct (map f qs)" and "q \<in> set qs"
  shows "\<exists>v. map_of (zip (map f qs) vs) (f q) = Some v \<and> R q v"
  using assms
proof (induction rule: list_all2_induct)
  case Nil
  then show ?case by simp
next
  case (Cons x xs y ys)
  show ?case
  proof (cases "q = x")
    case True
    with Cons.hyps(1) show ?thesis by simp
  next
    case False
    with Cons.prems have "q \<in> set xs" and "distinct (map f xs)" and "f q \<noteq> f x"
      by (auto simp add: image_iff)
    with Cons.IH show ?thesis by simp
  qed
qed


lemma unrecognized_max_points:
  assumes "unrecognized q" and "points q = None"
  shows "question_max_points q = 1"
  using assms by (simp add: unrecognized_def question_max_points_def Let_def)

lemma unrecognized_score:
  assumes "unrecognized q"
  shows "question_score answers q = Inr 0"
  using assms by (simp add: unrecognized_def question_score_def grade_question_def Let_def round2_0)

lemma scores_below_points:
  assumes "list_all2 (\<lambda>q v. question_score answers q = Inr v) qs vs"
    and "list_all plain_points qs"
  shows "sum_list vs \<le> sum_list (map question_max_points qs)"
  using assms
proof (induction rule: list_all2_induct)
  case Nil
  then show ?case by simp
next
  case (Cons q qs v vs)
  from Cons.prems have pq: "plain_points q" and rest: "list_all plain_points qs" by simp_all
  from pq question_score_bounds [OF Cons.hyps(1)] have "v \<le> question_max_points q"
    by (simp add: plain_points_def)
  with Cons.IH [OF rest] show ?case by simp
qed

lemma scores_one_below_points:
  assumes "list_all2 (\<lambda>q v. question_score answers q = Inr v) qs vs"
    and "list_all plain_points qs"
    and "q \<in> set qs" and "unrecognized q" and "points q = None"
  shows "sum_list vs + 1 \<le> sum_list (map question_max_points qs)"
  using assms
proof (induction rule: list_all2_induct)
  case Nil
  then show ?case by simp
next
  case (Cons x xs v vs)
  from Cons.prems have px: "plain_points x" and rest: "list_all plain_points xs" by simp_all
  show ?case
  proof (cases "q = x")
    case True
    with Cons.prems Cons.hyps(1) have "v = 0" and "question_max_points x = 1"
      using unrecognized_score [of x answers] unrecognized_max_points [of x] by simp_all
    with scores_below_points [OF Cons.hyps(2) rest] show ?thesis by simp
  next
    case False
    with Cons.prems have "q \<in> set xs" by simp
    from Cons.IH [OF rest this Cons.prems(3,4)]
    have "sum_list vs + 1 \<le> sum_list (map question_max_points xs)" .
    moreover from px question_score_bounds [OF Cons.hyps(1)] have "v \<le> question_max_points x"
      by (simp add: plain_points_def)
    ultimately show ?thesis by simp
  qed
qed

lemma count_positions_card:
  "count_positions parts correct =
     card {i. i < length correct \<and> i < length parts \<and> parts ! i = correct ! i}"
proof -
  have "count_positions parts correct =
          card {i. i < length (enumerate 0 correct)
                   \<and> (case enumerate 0 correct ! i of (j, e) \<Rightarrow> j < length parts \<and> parts ! j = e)}"
    unfolding count_positions_def by (rule length_filter_conv_card)
  also have "{i. i < length (enumerate 0 correct)
                   \<and> (case enumerate 0 correct ! i of (j, e) \<Rightarrow> j < length parts \<and> parts ! j = e)}
             = {i. i < length correct \<and> i < length parts \<and> parts ! i = correct ! i}"
    by (auto simp add: nth_enumerate_eq)
  finally show ?thesis .
qed

lemma count_positions_Nil: "count_positions parts [] = 0" "count_positions [] correct = 0"
  by (simp_all add: count_positions_def)

lemma startswith_iff: "startswith s p \<longleftrightarrow> (\<exists>suf. s = p @ suf)"
  by (induction s p rule: startswith.induct) auto

lemma contains_iff: "contains s kw \<longleftrightarrow> (\<exists>pre suf. s = pre @ kw @ suf)"
proof (induction s)
  case Nil
  then show ?case by auto
next
  case (Cons c cs)
  show ?case
  proof
    assume "contains (c # cs) kw"
    then consider "startswith (c # cs) kw" | "contains cs kw" by auto
    then show "\<exists>pre suf. c # cs = pre @ kw @ suf"
    proof cases
      case 1
      then obtain suf where "c # cs = kw @ suf" by (auto simp add: startswith_iff)
      then have "c # cs = [] @ kw @ suf" by simp
      then show ?thesis by blast
    next
      case 2
      with Cons.IH obtain pre suf where "cs = pre @ kw @ suf" by blast
      then have "c # cs = (c # pre) @ kw @ suf" by simp
      then show ?thesis by blast
    qed
  next
    assume "\<exists>pre suf. c # cs = pre @ kw @ suf"
    then obtain pre suf where e: "c # cs = pre @ kw @ suf" by blast
    show "contains (c # cs) kw"
    proof (cases pre)
      case Nil
      with e have "startswith (c # cs) kw" by (auto simp add: startswith_iff)
      then show ?thesis by simp
    next
      case (Cons a pre')
      with e have "cs = pre' @ kw @ suf" by simp
      with Cons.IH have "contains cs kw" by blast
      then show ?thesis by simp
    qed
  qed
qed

lemma free_text_not_fixed_tag:
  assumes "startswith t (pystr_of ''free_text'')"
  shows "t \<noteq> pystr_of ''single''" "t \<noteq> pystr_of ''matching''"
    "t \<noteq> pystr_of ''tf_list''" "t \<noteq> pystr_of ''ordering''"
  using assms tags_not_free_text by auto

section \<open>The tokens of an ordering\<close>

lemma set_strip: "set (strip s) \<subseteq> set s"
proof -
  have "set (strip s) \<subseteq> set (dropWhile isspace s)"
    unfolding strip_def using set_dropWhileD by fastforce
  also have "\<dots> \<subseteq> set s" using set_dropWhileD by fastforce
  finally show ?thesis .
qed

lemma words_from_chars:
  assumes "p \<in> set (words_from w s)"
  shows "set p \<subseteq> set w \<union> set s"
  using assms
  by (induction w s rule: words_from.induct) (auto split: if_splits)

lemma split_chars:
  assumes "p \<in> set (split s)"
  shows "set p \<subseteq> set s"
  using words_from_chars [of p "[]" s] assms by (simp add: split_def)

lemma fields_from_chars:
  assumes "p \<in> set (fields_from sep w s)"
  shows "set p \<subseteq> set w \<union> set s"
  using assms
  by (induction sep w s rule: fields_from.induct) (auto split: if_splits)

lemma split_on_chars:
  assumes "p \<in> set (split_on sep s)"
  shows "set p \<subseteq> set s"
  using fields_from_chars [of p sep "[]" s] assms by (simp add: split_on_def)

lemma lower_char_no_letter:
  assumes "digit_or_non_latin c" and "d \<in> set (lower_char c)"
  shows "\<not> is_ascii_lower d"
  using assms
  by (auto simp add: digit_or_non_latin_def lower_char_def is_ascii_lower_def split: if_splits)

lemma lower_no_letter:
  assumes "\<forall>c \<in> set s. digit_or_non_latin c" and "d \<in> set (lower s)"
  shows "\<not> is_ascii_lower d"
  using assms lower_char_no_letter by (auto simp add: lower_def)

lemma match_letter_has_letter:
  assumes "match_letter p"
  shows "\<exists>c \<in> set p. is_ascii_lower c"
  using assms by (auto simp add: match_letter_def split: list.splits)

lemma parse_ordering_no_letter:
  assumes "\<forall>c \<in> set s. digit_or_non_latin c"
  shows "parse_ordering_input s = []"
proof -
  have sub: "\<forall>c \<in> set p. digit_or_non_latin c" if "set p \<subseteq> set (strip s)" for p
    using that assms set_strip [of s] by blast
  have tok: "\<not> match_letter (lower (strip p))" if "set p \<subseteq> set (strip s)" for p
  proof
    assume "match_letter (lower (strip p))"
    then obtain d where "d \<in> set (lower (strip p))" and "is_ascii_lower d"
      using match_letter_has_letter by blast
    moreover have "\<forall>c \<in> set (strip p). digit_or_non_latin c"
      using sub [OF that] set_strip [of p] by blast
    ultimately show False using lower_no_letter by blast
  qed
  have one: "\<not> match_letter [d]" if "d \<in> set (lower (strip s))" for d
    using that lower_no_letter [of "strip s" d] sub [of "strip s"]
    by (auto simp add: match_letter_def)
  show ?thesis
    using tok one split_chars split_on_chars
    by (auto simp add: parse_ordering_input_def Let_def filter_empty_conv)
qed


lemma strip_last:
  assumes "strip s \<noteq> []"
  shows "\<not> isspace (last (strip s))"
proof -
  let ?r = "dropWhile isspace (rev (dropWhile isspace s))"
  from assms have ne: "?r \<noteq> []" by (simp add: strip_def)
  then have "\<not> isspace (hd ?r)" by (rule hd_dropWhile)
  moreover have "last (strip s) = hd ?r" using ne by (simp add: strip_def last_rev)
  ultimately show ?thesis by simp
qed

lemma lower_char_last:
  "lower_char c \<noteq> []" "last (lower_char c) = 10 \<Longrightarrow> c = 10"
  by (auto simp add: lower_char_def split: if_splits)

lemma lower_last:
  assumes "s \<noteq> []" and "last (lower s) = 10"
  shows "last s = 10"
proof -
  from assms(1) obtain xs c where s: "s = xs @ [c]" by (metis rev_exhaust)
  then have "lower s = lower xs @ lower_char c" by (simp add: lower_def)
  with assms(2) lower_char_last(1) [of c] have "last (lower_char c) = 10" by simp
  with s show ?thesis by (simp add: lower_char_last(2))
qed

lemma match_letter_token:
  assumes "match_letter (lower (strip x))"
  shows "single_letter (lower (strip x))"
proof -
  from assms obtain c rest where p: "lower (strip x) = c # rest" and c: "is_ascii_lower c"
    and r: "rest = [] \<or> rest = [10]"
    by (auto simp add: match_letter_def split: list.splits)
  have "rest \<noteq> [10]"
  proof
    assume "rest = [10]"
    with p have l: "last (lower (strip x)) = 10" by simp
    from p have "strip x \<noteq> []" by (auto simp add: lower_def)
    from lower_last [OF this l] strip_last [OF this] show False by (simp add: isspace_def)
  qed
  with r p c show ?thesis by (simp add: single_letter_def)
qed

lemma match_letter_char:
  assumes "match_letter [c]"
  shows "single_letter [c]"
  using assms by (simp add: match_letter_def single_letter_def)

lemma parse_ordering_tokens: "list_all single_letter (parse_ordering_input s)"
  using match_letter_token match_letter_char
  by (auto simp add: parse_ordering_input_def Let_def list_all_iff)

section \<open>The three forms of an ordering\<close>

lemma letter_not_space: "is_ascii_letter c \<Longrightarrow> \<not> isspace c"
  by (auto simp add: is_ascii_letter_def isspace_def)

lemma letter_not_comma: "is_ascii_letter c \<Longrightarrow> c \<noteq> 44"
  by (auto simp add: is_ascii_letter_def)

lemma lower_letter:
  assumes "is_ascii_letter c"
  shows "\<exists>d. lower [c] = [d] \<and> is_ascii_lower d"
  using assms by (auto simp add: is_ascii_letter_def lower_def lower_char_def is_ascii_lower_def)

lemma strip_id:
  assumes "s \<noteq> []" and "\<not> isspace (hd s)" and "\<not> isspace (last s)"
  shows "strip s = s"
proof -
  from assms(1,2) have a: "dropWhile isspace s = s" by (cases s) simp_all
  from assms(1,3) have "dropWhile isspace (rev s) = rev s"
    by (cases "rev s") (simp_all add: hd_rev [symmetric])
  with a show ?thesis by (simp add: strip_def)
qed

lemma strip_letter: "is_ascii_letter c \<Longrightarrow> strip [c] = [c]"
  using strip_id [of "[c]"] letter_not_space by simp

lemma fields_from_joined:
  assumes "\<forall>d \<in> set cs. d \<noteq> sep"
  shows "fields_from sep w (concat (map (\<lambda>d. [sep, d]) cs)) = w # map (\<lambda>d. [d]) cs"
  using assms by (induction cs arbitrary: w) simp_all

lemma words_from_joined:
  assumes "\<forall>d \<in> set cs. \<not> isspace d" and "isspace sep" and "w \<noteq> []"
  shows "words_from w (concat (map (\<lambda>d. [sep, d]) cs)) = w # map (\<lambda>d. [d]) cs"
  using assms by (induction cs arbitrary: w) simp_all

lemma keep_letters:
  assumes "list_all is_ascii_letter ls"
  shows "filter match_letter (map (\<lambda>p. lower (strip p)) (filter (\<lambda>p. strip p \<noteq> []) (map (\<lambda>d. [d]) ls)))
         = map (\<lambda>c. lower [c]) ls"
  using assms
proof (induction ls)
  case Nil
  then show ?case by simp
next
  case (Cons c cs)
  then have c: "is_ascii_letter c" by simp
  from lower_letter [OF c] obtain d where "lower [c] = [d]" and "is_ascii_lower d" by blast
  with Cons c show ?case by (simp add: strip_letter match_letter_def)
qed

lemma keep_lowered:
  assumes "list_all is_ascii_letter ls"
  shows "filter match_letter (map (\<lambda>c. [c]) (lower ls)) = map (\<lambda>c. lower [c]) ls"
  using assms
proof (induction ls)
  case Nil
  then show ?case by (simp add: lower_def)
next
  case (Cons c cs)
  then have c: "is_ascii_letter c" by simp
  from lower_letter [OF c] obtain d where d: "lower [c] = [d]" and "is_ascii_lower d" by blast
  have "lower (c # cs) = lower [c] @ lower cs" by (simp add: lower_def)
  with Cons d \<open>is_ascii_lower d\<close> show ?case by (simp add: match_letter_def)
qed

lemma joined_ends:
  assumes "list_all is_ascii_letter (c # cs)"
  shows "\<not> isspace (hd (join_with sep (c # cs)))" and "\<not> isspace (last (join_with sep (c # cs)))"
proof -
  show "\<not> isspace (hd (join_with sep (c # cs)))"
    using assms by (simp add: join_with_def letter_not_space)
  have "last (c # concat (map (\<lambda>d. [sep, d]) cs)) = last (c # cs)"
    by (induction cs rule: rev_induct) simp_all
  moreover have "is_ascii_letter (last (c # cs))"
    using assms by (metis last_in_set list.distinct(1) list_all_iff)
  ultimately show "\<not> isspace (last (join_with sep (c # cs)))"
    by (simp add: join_with_def letter_not_space)
qed

lemma parse_ordering_contiguous:
  assumes "list_all is_ascii_letter ls"
  shows "parse_ordering_input ls = map (\<lambda>c. lower [c]) ls"
proof (cases ls)
  case Nil
  then show ?thesis by (simp add: parse_ordering_input_def)
next
  case (Cons c cs)
  have ns: "\<forall>d \<in> set ls. \<not> isspace d" and nc: "44 \<notin> set ls"
    using assms letter_not_space letter_not_comma by (auto simp add: list_all_iff)
  have "strip ls = ls"
    using Cons ns by (intro strip_id) simp_all
  with Cons ns nc keep_lowered [OF assms] show ?thesis
    by (simp add: parse_ordering_input_def Let_def list_ex_iff)
qed

lemma parse_ordering_commas:
  assumes "list_all is_ascii_letter ls"
  shows "parse_ordering_input (join_with 44 ls) = map (\<lambda>c. lower [c]) ls"
proof (cases ls)
  case Nil
  then show ?thesis by (simp add: parse_ordering_input_def join_with_def)
next
  case (Cons c cs)
  show ?thesis
  proof (cases cs)
    case Nil
    with Cons have "join_with 44 ls = ls" by (simp add: join_with_def)
    with parse_ordering_contiguous [OF assms] show ?thesis by simp
  next
    case (Cons d ds)
    let ?s = "join_with 44 ls"
    have s: "?s = c # concat (map (\<lambda>d. [44, d]) cs)"
      using \<open>ls = c # cs\<close> by (simp add: join_with_def)
    have st: "strip ?s = ?s"
      using joined_ends [of c cs 44] assms \<open>ls = c # cs\<close> s by (intro strip_id) simp_all
    have comma: "44 \<in> set ?s" using s Cons by simp
    have "\<forall>d \<in> set cs. d \<noteq> 44"
      using assms \<open>ls = c # cs\<close> letter_not_comma by (auto simp add: list_all_iff)
    then have "split_on 44 ?s = map (\<lambda>d. [d]) ls"
      using s \<open>ls = c # cs\<close> letter_not_comma [of c] assms
      by (simp add: split_on_def fields_from_joined)
    with st comma keep_letters [OF assms] s show ?thesis
      by (simp add: parse_ordering_input_def Let_def)
  qed
qed

lemma parse_ordering_spaces:
  assumes "list_all is_ascii_letter ls" and "isspace sep"
  shows "parse_ordering_input (join_with sep ls) = map (\<lambda>c. lower [c]) ls"
proof (cases ls)
  case Nil
  then show ?thesis by (simp add: parse_ordering_input_def join_with_def)
next
  case (Cons c cs)
  show ?thesis
  proof (cases cs)
    case Nil
    with Cons have "join_with sep ls = ls" by (simp add: join_with_def)
    with parse_ordering_contiguous [OF assms(1)] show ?thesis by simp
  next
    case (Cons d ds)
    let ?s = "join_with sep ls"
    have s: "?s = c # concat (map (\<lambda>d. [sep, d]) cs)"
      using \<open>ls = c # cs\<close> by (simp add: join_with_def)
    have st: "strip ?s = ?s"
      using joined_ends [of c cs sep] assms(1) \<open>ls = c # cs\<close> s by (intro strip_id) simp_all
    have sep44: "sep \<noteq> 44" using assms(2) by (auto simp add: isspace_def)
    have "\<forall>d \<in> set ls. d \<noteq> 44"
      using assms(1) letter_not_comma by (auto simp add: list_all_iff)
    then have nocomma: "44 \<notin> set ?s"
      using s sep44 \<open>ls = c # cs\<close> by auto
    have space: "list_ex isspace ?s" using s Cons assms(2) by (simp add: list_ex_iff)
    have ns: "\<forall>d \<in> set cs. \<not> isspace d" and nsc: "\<not> isspace c"
      using assms(1) \<open>ls = c # cs\<close> letter_not_space by (auto simp add: list_all_iff)
    have "split ?s = map (\<lambda>d. [d]) ls"
      using s \<open>ls = c # cs\<close> nsc words_from_joined [OF ns assms(2), of "[c]"]
      by (simp add: split_def)
    with st nocomma space keep_letters [OF assms(1)] s show ?thesis
      by (simp add: parse_ordering_input_def Let_def)
  qed
qed

section \<open>Grading never divides by zero; when it returns\<close>

lemma store_pair_error:
  assumes "store_pair res m = Inl e"
  shows "e = ValueError"
  using assms by (auto simp add: store_pair_def py_int_def split: if_splits sum.splits)

lemma store_pairs_error:
  assumes "store_pairs res ms = Inl e"
  shows "e = ValueError"
  using assms
  by (induction res ms rule: store_pairs.induct) (auto split: sum.splits dest: store_pair_error)

lemma parse_parts_error:
  assumes "parse_parts res ps = Inl e"
  shows "e = ValueError"
  using assms
  by (induction res ps rule: parse_parts.induct)
    (auto split: sum.splits option.splits dest: store_pair_error store_pairs_error)

lemma parse_matching_error:
  assumes "parse_matching_input s = Inl e"
  shows "e = ValueError"
  using assms by (auto simp add: parse_matching_input_def Let_def split: if_splits
      dest: parse_parts_error)

lemma grade_matching_no_division_by_zero:
  "grade_matching q pts student_ans \<noteq> Inl ZeroDivisionError"
proof
  assume a: "grade_matching q pts student_ans = Inl ZeroDivisionError"
  show False
  proof (cases "answer_items q")
    case (Inl e)
    with a have "e = ZeroDivisionError" by (simp add: grade_matching_def)
    with Inl show False
      by (simp add: answer_items_def split: option.splits answer_key.splits)
  next
    case kvs: (Inr kvs)
    show False
    proof (cases "parse_matching_input student_ans")
      case (Inl e)
      with a kvs have "e = ZeroDivisionError" by (simp add: grade_matching_def Let_def)
      with parse_matching_error [OF Inl] show False by simp
    next
      case (Inr s_map)
      with a kvs show False by (simp add: grade_matching_def Let_def partial_credit_value)
    qed
  qed
qed

lemma grade_question_no_division_by_zero:
  "grade_question q pts student_ans \<noteq> Inl ZeroDivisionError"
  using grade_matching_no_division_by_zero [of q pts student_ans]
  by (auto simp add: grade_question_def Let_def grade_single_def
        grade_tf_list_def grade_ordering_def grade_sequence_value grade_free_text_def
        py_div_def answer_choice_def
      split: sum.splits option.splits answer_key.splits if_splits)

lemma grade_step_no_division_by_zero: "grade_step answers st q \<noteq> Inl ZeroDivisionError"
  using grade_question_no_division_by_zero
  by (auto simp add: grade_step_def Let_def split: sum.splits)

lemma grade_loop_no_division_by_zero: "grade_loop answers st qs \<noteq> Inl ZeroDivisionError"
  using grade_step_no_division_by_zero
  by (induction qs arbitrary: st) (auto split: sum.splits)

lemma grade_answers_no_division_by_zero: "grade_answers t answers \<noteq> Inl ZeroDivisionError"
  using grade_loop_no_division_by_zero
  by (auto simp add: grade_answers_def split: sum.splits)

text \<open>An answer of at most 4300 characters holds no number that \<^verbatim>\<open>int\<close> refuses.\<close>

lemma match_pair_digits_shorter:
  assumes "match_pair s = Some (c, ds, rest)"
  shows "length ds < length s"
proof (cases s)
  case Nil
  with assms show ?thesis by (simp add: match_pair_def)
next
  case (Cons a r0)
  let ?r1 = "dropWhile isspace r0"
  let ?r2 = "case ?r1 of [] \<Rightarrow> ?r1 | j # t \<Rightarrow> if is_joiner j then t else ?r1"
  let ?r3 = "dropWhile isspace ?r2"
  have "ds = takeWhile is_digit ?r3"
    using assms Cons by (simp add: match_pair_def Let_def split: if_splits)
  moreover have "length (takeWhile is_digit ?r3) \<le> length ?r3"
    by (rule length_takeWhile_le)
  moreover have "length ?r3 \<le> length ?r2"
    by (rule length_dropWhile_le)
  moreover have "length ?r2 \<le> length ?r1"
    by (simp split: list.splits)
  moreover have "length ?r1 \<le> length r0"
    by (rule length_dropWhile_le)
  ultimately show ?thesis using Cons by simp
qed

lemma finditer_digits_short:
  assumes "m \<in> set (finditer_pairs p)"
  shows "length (snd m) \<le> length p"
  using assms
proof (induction p rule: finditer_pairs.induct)
  case 1
  then show ?case by simp
next
  case (2 c cs)
  show ?case
  proof (cases "match_pair (c # cs)")
    case None
    with 2 show ?thesis by auto
  next
    case (Some x)
    obtain l ds rest where x: "x = (l, ds, rest)" by (cases x) auto
    from Some x match_pair_shorter match_pair_digits_shorter
    have r: "length rest < length (c # cs)" and d: "length ds < length (c # cs)" by blast+
    from "2.prems" Some x have "m = (l, ds) \<or> m \<in> set (finditer_pairs rest)" by simp
    then show ?thesis
    proof
      assume "m = (l, ds)"
      with d show ?thesis by simp
    next
      assume "m \<in> set (finditer_pairs rest)"
      with "2.IH"(2) [OF Some x [THEN sym] refl] r show ?thesis by simp
    qed
  qed
qed

lemma store_pair_short:
  assumes "length (snd m) \<le> 4300"
  shows "\<exists>r. store_pair res m = Inr r"
  using assms by (simp add: store_pair_def py_int_def)

lemma store_pairs_short:
  assumes "\<forall>m \<in> set ms. length (snd m) \<le> 4300"
  shows "\<exists>r. store_pairs res ms = Inr r"
  using assms
proof (induction ms arbitrary: res)
  case Nil
  then show ?case by simp
next
  case (Cons m ms)
  then obtain r where "store_pair res m = Inr r" using store_pair_short [of m res] by auto
  with Cons show ?case by simp
qed

lemma match_whole_digits_short:
  assumes "match_whole p = Some m"
  shows "length (snd m) \<le> length p"
  using assms match_pair_digits_shorter [of p]
  by (auto simp add: match_whole_def split: option.splits if_splits dest!: less_imp_le)

lemma parse_parts_short:
  assumes "\<forall>p \<in> set ps. length p \<le> 4300"
  shows "\<exists>r. parse_parts res ps = Inr r"
  using assms
proof (induction ps arbitrary: res)
  case Nil
  then show ?case by simp
next
  case (Cons p ps)
  then have p: "length p \<le> 4300" by simp
  have "\<exists>r. (case match_whole p of Some m \<Rightarrow> store_pair res m
               | None \<Rightarrow> store_pairs res (finditer_pairs p)) = Inr r"
  proof (cases "match_whole p")
    case None
    have "\<forall>m \<in> set (finditer_pairs p). length (snd m) \<le> 4300"
      using finditer_digits_short p by fastforce
    from store_pairs_short [OF this] None show ?thesis by simp
  next
    case (Some m)
    from match_whole_digits_short [OF Some] p have "length (snd m) \<le> 4300" by simp
    from store_pair_short [OF this] Some show ?thesis by simp
  qed
  then obtain r where "(case match_whole p of Some m \<Rightarrow> store_pair res m
               | None \<Rightarrow> store_pairs res (finditer_pairs p)) = Inr r" by blast
  with Cons show ?case by simp
qed

lemma words_from_length:
  assumes "p \<in> set (words_from w s)"
  shows "length p \<le> length w + length s"
  using assms
  by (induction w s rule: words_from.induct) (fastforce split: if_splits)+

lemma length_strip_le: "length (strip s) \<le> length s"
proof -
  have "length (strip s) \<le> length (dropWhile isspace s)"
    unfolding strip_def using length_dropWhile_le [of isspace "rev (dropWhile isspace s)"]
    by simp
  also have "\<dots> \<le> length s" by (rule length_dropWhile_le)
  finally show ?thesis .
qed

lemma short_answer_parses:
  assumes "length s \<le> 4300"
  shows "\<exists>m. parse_matching_input s = Inr m"
proof (cases "s = []")
  case True
  then show ?thesis by (simp add: parse_matching_input_def)
next
  case False
  let ?s2 = "strip (replace 58 32 (replace 44 32 (replace 59 32 s)))"
  have "length ?s2 \<le> length s"
    using length_strip_le [of "replace 58 32 (replace 44 32 (replace 59 32 s))"]
    by (simp add: replace_def)
  then have "\<forall>p \<in> set (split ?s2). length p \<le> 4300"
    using words_from_length [of _ "[]" ?s2] assms by (fastforce simp add: split_def)
  from parse_parts_short [OF this] False show ?thesis
    by (simp add: parse_matching_input_def Let_def)
qed

lemma grade_question_total:
  assumes "well_shaped q" and "answer_parses q student_ans"
  shows "\<exists>x. grade_question q pts student_ans = Inr x"
proof -
  have s: "\<exists>x. grade_single q pts student_ans = Inr x"
    if "answer_choice q \<noteq> Inl AttributeError"
  proof (cases "answer_choice q")
    case (Inl e)
    with that show ?thesis by (cases e) (simp_all add: answer_choice_def
          split: option.splits answer_key.splits if_splits)
  next
    case (Inr a)
    then show ?thesis by (auto simp add: grade_single_def Let_def)
  qed
  have m: "\<exists>x. grade_matching q pts student_ans = Inr x"
    if "answer_items q \<noteq> Inl AttributeError"
      and "parse_matching_input student_ans \<noteq> Inl ValueError"
  proof (cases "answer_items q")
    case (Inl e)
    with that(1) show ?thesis by (cases e) (simp_all add: answer_items_def
          split: option.splits answer_key.splits)
  next
    case kvs: (Inr kvs)
    show ?thesis
    proof (cases "parse_matching_input student_ans")
      case (Inl e)
      with that(2) parse_matching_error [OF Inl] show ?thesis by simp
    next
      case (Inr s_map)
      with kvs show ?thesis
        by (auto simp add: grade_matching_def partial_credit_value Let_def)
    qed
  qed
  have f: "\<exists>x. grade_free_text q pts student_ans = Inr x"
    by (auto simp add: grade_free_text_def py_div_def Let_def)
  from assms s m f show ?thesis
    by (auto simp add: well_shaped_def answer_parses_def grade_question_def Let_def
        grade_tf_list_def grade_ordering_def grade_sequence_value tags_distinct
        split: if_splits)
qed

lemma grade_step_total:
  assumes "well_shaped q" and "answer_parses q (get_answer answers (qid q))"
  shows "\<exists>st'. grade_step answers st q = Inr st'"
proof -
  from grade_question_total [OF assms] obtain raw manual d where
    "grade_question q (question_max_points q) (get_answer answers (qid q)) = Inr (raw, manual, d)"
    by (metis prod_cases3)
  then show ?thesis by (simp add: grade_step_def Let_def)
qed

lemma grade_loop_total:
  assumes "list_all (\<lambda>q. well_shaped q \<and> answer_parses q (get_answer answers (qid q))) qs"
  shows "\<exists>st'. grade_loop answers st qs = Inr st'"
  using assms
proof (induction qs arbitrary: st)
  case Nil
  then show ?case by simp
next
  case (Cons q qs)
  then have "well_shaped q" and "answer_parses q (get_answer answers (qid q))"
    and rest: "list_all (\<lambda>q. well_shaped q \<and> answer_parses q (get_answer answers (qid q))) qs"
    by simp_all
  from grade_step_total [OF this(1,2)] obtain st1 where "grade_step answers st q = Inr st1"
    by blast
  with Cons.IH [OF rest, of st1] show ?case by simp
qed

lemma grade_answers_total:
  assumes "list_all (\<lambda>q. well_shaped q \<and> answer_parses q (get_answer answers (qid q)))
             (questions t)"
  shows "\<exists>r. grade_answers t answers = Inr r"
  using grade_loop_total [OF assms, of initial_state]
  by (auto simp add: grade_answers_def)

section \<open>The example tests, graded\<close>

lemma round2_numeral: "round2 (numeral n) = numeral n"
  using round2_of_nat [of "numeral n"] by simp

lemma round2_three_eighths: "round2 (3 / 8) = 19 / 50" "round2 (19 / 50) = 19 / 50"
  using round2_tie [of "3 / 8" 37] round2_hundredth [of 38] by simp_all

lemmas grade_eval =
  grade_question_def grade_single_def grade_matching_def grade_tf_list_def grade_ordering_def
  grade_free_text_def grade_sequence_def partial_credit_def py_div_def count_pairs_def
  count_positions_def answer_choice_def answer_items_def answer_iter_def answer_len_def
  opt_len_def question_max_points_def normalize_choice_def get_answer_def
  round2_0 round2_one_two round2_numeral

lemmas demo_defs =
  plain_question_def demo_single_def demo_matching_def demo_tf_list_def demo_free_text_def
  demo_test_def demo_answers_def

lemma demo_single_graded:
  "grade_question demo_single (question_max_points demo_single)
     (get_answer demo_answers (qid demo_single))
   = Inr (1, False, SingleDetail (pystr_of ''a'') (pystr_of ''a'') 1)"
  by (simp add: demo_defs grade_eval string_eval)

lemma demo_matching_graded:
  "grade_question demo_matching (question_max_points demo_matching)
     (get_answer demo_answers (qid demo_matching))
   = Inr (2, False,
          MatchingDetail [(pystr_of ''a'', 2), (pystr_of ''b'', 3), (pystr_of ''c'', 4)]
            [(pystr_of ''a'', 2), (pystr_of ''b'', 1), (pystr_of ''c'', 4)] 2 3 2)"
  by (simp add: demo_defs grade_eval string_eval parse_matching_input_def match_eval)

lemma demo_tf_list_graded:
  "grade_question demo_tf_list (question_max_points demo_tf_list)
     (get_answer demo_answers (qid demo_tf_list))
   = Inr (2, False,
          ListDetail (pystr_of ''tf_list'') (map pystr_of [''T'', ''F'', ''F''])
            (map pystr_of [''T'', ''F'', ''T'']) 2 3 2)"
  by (simp add: demo_defs grade_eval string_eval parse_tf_list_input_def)

lemma demo_free_text_graded:
  "grade_question demo_free_text (question_max_points demo_free_text)
     (get_answer demo_answers (qid demo_free_text))
   = Inr (2, True,
          FreeTextDetail (pystr_of ''free_text'')
            (pystr_of ''the process of mitosis splits the cell'') 2 2 2)"
  by (simp add: demo_defs grade_eval string_eval)

lemma demo_essay_graded:
  "grade_question demo_essay (question_max_points demo_essay) (get_answer answers (qid demo_essay))
   = Inr (0, False, OtherDetail (pystr_of ''essay'') (get_answer answers (pystr_of ''q5'')))"
  by (simp add: demo_essay_def plain_question_def grade_question_def pystr_of_def)

lemma demo_questions:
  "questions demo_test = [demo_single, demo_matching, demo_tf_list, demo_free_text]"
  by (simp add: demo_test_def)

lemma demo_ids:
  "qid demo_single = pystr_of ''q1''" "qid demo_matching = pystr_of ''q2''"
  "qid demo_tf_list = pystr_of ''q3''" "qid demo_free_text = pystr_of ''q4''"
  "qid demo_essay = pystr_of ''q5''"
  by (simp_all add: demo_defs demo_essay_def)

lemma demo_points:
  "question_max_points demo_single = 1" "question_max_points demo_matching = 3"
  "question_max_points demo_tf_list = 3" "question_max_points demo_free_text = 2"
  "question_max_points demo_essay = 1"
  by (simp_all add: demo_defs demo_essay_def grade_eval pystr_of_def)

lemma demo_distinct: "distinct (map qid (questions demo_test))"
  by (simp add: demo_questions demo_ids pystr_of_def)

lemma demo_graded: "grade_answers demo_test demo_answers = Inr demo_result"
  apply (simp only: grade_answers_def demo_questions grade_loop.simps grade_step_def Let_def
      demo_single_graded demo_matching_graded demo_tf_list_graded demo_free_text_graded
      sum.case prod.case)
  apply (simp add: initial_state_def demo_ids demo_points demo_result_def pystr_of_def
      round2_0 round2_one_two round2_numeral)
  done

lemma essay_graded: "grade_answers essay_test demo_answers = Inr essay_result"
  apply (simp only: grade_answers_def essay_test_def test.simps grade_loop.simps grade_step_def
      Let_def demo_single_graded demo_essay_graded sum.case prod.case)
  apply (simp add: initial_state_def demo_ids demo_points essay_result_def pystr_of_def
      get_answer_def demo_answers_def round2_0 round2_one_two)
  done

lemma eighths_single_graded:
  "grade_question eighths_single (question_max_points eighths_single)
     (get_answer demo_answers (qid eighths_single))
   = Inr (3 / 8, False, SingleDetail (pystr_of ''a'') (pystr_of ''a'') (3 / 8))"
  by (simp add: eighths_single_def demo_defs grade_eval string_eval)

lemma eighths_graded: "grade_answers eighths_test demo_answers = Inr eighths_result"
  apply (simp only: grade_answers_def eighths_test_def test.simps grade_loop.simps grade_step_def
      Let_def eighths_single_graded sum.case prod.case)
  apply (simp add: initial_state_def eighths_single_def plain_question_def eighths_result_def
      question_max_points_def round2_three_eighths)
  done

lemma penalty_single_graded:
  "grade_question penalty_single (question_max_points penalty_single)
     (get_answer Map.empty (qid penalty_single))
   = Inr (0, False, SingleDetail [] (pystr_of ''a'') 0)"
  by (simp add: penalty_single_def plain_question_def grade_eval string_eval)

lemma penalty_points:
  "question_max_points penalty_single = - 1" "qid penalty_single = pystr_of ''q6''"
  by (simp_all add: penalty_single_def plain_question_def question_max_points_def)

lemma penalty_graded: "grade_answers penalty_test Map.empty = Inr penalty_result"
  apply (simp only: grade_answers_def penalty_test_def test.simps grade_loop.simps grade_step_def
      Let_def penalty_single_graded demo_essay_graded sum.case prod.case)
  apply (simp add: initial_state_def demo_ids demo_points penalty_points penalty_result_def
      get_answer_def pystr_of_def round2_0)
  done

section \<open>The parsers on the inputs of the specification\<close>

lemma parse_matching_dash:
  "parse_matching_input (pystr_of ''a-2 b-1 c-4'') =
     Inr [(pystr_of ''a'', 2), (pystr_of ''b'', 1), (pystr_of ''c'', 4)]"
  by (simp add: parse_matching_input_def string_eval match_eval)

lemma parse_matching_mixed:
  "parse_matching_input (pystr_of ''a=2,b=1;c=4'') =
     Inr [(pystr_of ''a'', 2), (pystr_of ''b'', 1), (pystr_of ''c'', 4)]"
  by (simp add: parse_matching_input_def string_eval match_eval)

lemma parse_matching_contiguous:
  "parse_matching_input (pystr_of ''a2b1'') = Inr [(pystr_of ''a'', 2), (pystr_of ''b'', 1)]"
  by (simp add: parse_matching_input_def string_eval match_eval)

lemma parse_tf_list_forms:
  "parse_tf_list_input (pystr_of ''T T F T'') = map pystr_of [''T'', ''T'', ''F'', ''T'']"
  "parse_tf_list_input (pystr_of ''TTFT'') = map pystr_of [''T'', ''T'', ''F'', ''T'']"
  "parse_tf_list_input (pystr_of ''t,t,f,t'') = map pystr_of [''T'', ''T'', ''F'', ''T'']"
  by (simp_all add: parse_tf_list_input_def string_eval)

text \<open>
  C4. The claim: \<^verbatim>\<open>parse_matching\<close> accepts \<^verbatim>\<open>:\<close> between the letter and the number,
  so that \<^verbatim>\<open>"a:2 b:1"\<close> gives the mapping of \<^verbatim>\<open>"a-2 b-1"\<close> and \<^verbatim>\<open>"a=2 b=1"\<close>.
  The code replaces every colon by a space before it splits, so the colon of the pattern
  \<^verbatim>\<open>[-=:]?\<close> never sees one: \<^verbatim>\<open>"a:2 b:1"\<close> becomes the tokens \<^verbatim>\<open>a\<close>, \<^verbatim>\<open>2\<close>,
  \<^verbatim>\<open>b\<close>, \<^verbatim>\<open>1\<close>, none of which holds a pair, and the result is the empty mapping, while
  the two other forms give \<^verbatim>\<open>{"a": 2, "b": 1}\<close>.
\<close>

theorem parse_matching_colon_joiner_lost:
  "parse_matching_input (pystr_of ''a:2 b:1'') = Inr []
   \<and> parse_matching_input (pystr_of ''a-2 b-1'') =
       Inr [(pystr_of ''a'', 2), (pystr_of ''b'', 1)]
   \<and> parse_matching_input (pystr_of ''a=2 b=1'') =
       Inr [(pystr_of ''a'', 2), (pystr_of ''b'', 1)]"
  by (simp add: parse_matching_input_def string_eval match_eval)

text \<open>
  C8. \<^verbatim>\<open>parse_ordering\<close> gives the same result for the white-space separated, the
  contiguous and the comma separated form of one sequence of letters, namely the letters
  in lower case, one token each: \<^verbatim>\<open>"d c b a e"\<close>, \<^verbatim>\<open>"dcbae"\<close> and \<^verbatim>\<open>"d,c,b,a,e"\<close> all
  give \<^verbatim>\<open>["d", "c", "b", "a", "e"]\<close>.
\<close>

theorem parse_ordering_forms_agree:
  assumes "list_all is_ascii_letter ls" and "isspace ws"
  shows "parse_ordering_input (join_with ws ls) = map (\<lambda>c. lower [c]) ls
         \<and> parse_ordering_input ls = map (\<lambda>c. lower [c]) ls
         \<and> parse_ordering_input (join_with 44 ls) = map (\<lambda>c. lower [c]) ls"
  using parse_ordering_spaces [OF assms] parse_ordering_contiguous [OF assms(1)]
    parse_ordering_commas [OF assms(1)]
  by simp

theorem parse_ordering_three_forms:
  "list_all is_ascii_letter (pystr_of ''dcbae'') \<and> isspace 32
   \<and> parse_ordering_input (pystr_of ''d c b a e'') = map pystr_of [''d'', ''c'', ''b'', ''a'', ''e'']
   \<and> parse_ordering_input (pystr_of ''dcbae'') = map pystr_of [''d'', ''c'', ''b'', ''a'', ''e'']
   \<and> parse_ordering_input (pystr_of ''d,c,b,a,e'') = map pystr_of [''d'', ''c'', ''b'', ''a'', ''e'']"
proof -
  have l: "list_all is_ascii_letter (pystr_of ''dcbae'')"
    by (simp add: pystr_of_def is_ascii_letter_def)
  have w: "isspace 32" by (simp add: isspace_def)
  have j: "join_with 32 (pystr_of ''dcbae'') = pystr_of ''d c b a e''"
    "join_with 44 (pystr_of ''dcbae'') = pystr_of ''d,c,b,a,e''"
    by (simp_all add: join_with_def pystr_of_def)
  have m: "map (\<lambda>c. lower [c]) (pystr_of ''dcbae'') = map pystr_of [''d'', ''c'', ''b'', ''a'', ''e'']"
    by (simp add: string_eval)
  from parse_ordering_forms_agree [OF l w] l w show ?thesis
    unfolding j m by simp
qed

section \<open>The claims about the totals\<close>



text \<open>
  C2, as the claim states it: for every question of a graded test the score in
  \<^verbatim>\<open>per_q_scores\<close> lies between 0 and the question's maximum. A single choice with
  \<^verbatim>\<open>"points": 0.375\<close> that is answered rightly refutes it: the score is
  \<^verbatim>\<open>round(0.375, 2)\<close>, which is 0.38 and exceeds the maximum.
\<close>

theorem question_score_above_points:
  "grade_answers eighths_test demo_answers = Inr eighths_result
   \<and> map_of (per_q_scores eighths_result) (qid eighths_single) = Some (19 / 50)
   \<and> question_max_points eighths_single = 3 / 8
   \<and> \<not> (19 / 50 \<le> question_max_points eighths_single)"
  using eighths_graded
  by (simp add: eighths_result_def eighths_single_def plain_question_def
      question_max_points_def)

text \<open>
  C2, amended: for every question of a graded test with unique question identifiers, if
  the question's maximum is not negative, has at most two decimal digits and is at most a
  million, the score in \<^verbatim>\<open>per_q_scores\<close> lies between 0 and the maximum and is rounded
  to two decimals. The bound of a million is not needed in the exact arithmetic of this
  theory; it keeps the rounding error of the interpreter's binary floating point far
  below half a hundredth, which rounding absorbs (\<open>share_rounding_robust\<close>), so that
  the statement is one about the code too (with the
  maximum \<^verbatim>\<open>1e14\<close> and eleven items all right, the code's
  \<^verbatim>\<open>round(11 * (pts / 11), 2)\<close> exceeds the maximum by 0.02).
\<close>

theorem question_score_within_points:
  assumes "grade_answers t answers = Inr r"
    and "distinct (map qid (questions t))"
    and "q \<in> set (questions t)"
    and "0 \<le> question_max_points q"
    and "round2 (question_max_points q) = question_max_points q"
    and "question_max_points q \<le> 1000000"
  shows "\<exists>v. map_of (per_q_scores r) (qid q) = Some v
              \<and> 0 \<le> v \<and> v \<le> question_max_points q \<and> round2 v = v"
proof -
  from assms(1) obtain st where l: "grade_loop answers initial_state (questions t) = Inr st"
    and r: "per_q_scores r = st_per_q_scores st"
    by (auto simp add: grade_answers_def split: sum.splits)
  from grade_loop_unfold [OF l] assms(2) obtain vs where
    a: "list_all2 (\<lambda>q v. question_score answers q = Inr v) (questions t) vs"
    and p: "st_per_q_scores st = zip (map qid (questions t)) vs"
    by (auto simp add: initial_state_def)
  from zip_lookup [OF a assms(2,3)] obtain v where
    m: "map_of (zip (map qid (questions t)) vs) (qid q) = Some v"
    and v: "question_score answers q = Inr v"
    by blast
  from question_score_bounds [OF v assms(4)] assms(5) m r p show ?thesis by simp
qed

theorem question_score_within_points_witness:
  "grade_answers demo_test demo_answers = Inr demo_result
   \<and> distinct (map qid (questions demo_test))
   \<and> demo_matching \<in> set (questions demo_test)
   \<and> 0 \<le> question_max_points demo_matching
   \<and> round2 (question_max_points demo_matching) = question_max_points demo_matching
   \<and> question_max_points demo_matching \<le> 1000000
   \<and> (\<exists>v. map_of (per_q_scores demo_result) (qid demo_matching) = Some v
            \<and> 0 \<le> v \<and> v \<le> question_max_points demo_matching \<and> round2 v = v)"
proof -
  have q: "demo_matching \<in> set (questions demo_test)" by (simp add: demo_questions)
  have p: "0 \<le> question_max_points demo_matching" by (simp add: demo_points)
  have h: "round2 (question_max_points demo_matching) = question_max_points demo_matching"
    by (simp add: demo_points round2_numeral)
  have m: "question_max_points demo_matching \<le> 1000000" by (simp add: demo_points)
  from question_score_within_points [OF demo_graded demo_distinct q p h m] demo_graded
    demo_distinct q p h m
  show ?thesis by blast
qed

text \<open>
  C3. For every test and raw answer map, \<^verbatim>\<open>manual_needed\<close> is true if and only if at
  least one question of the test has a type tag that starts with \<^verbatim>\<open>free_text\<close>. The
  keywords and the student's answer play no part, and a question of an unrecognized type
  does not set the flag.
\<close>

theorem manual_needed_iff_free_text:
  assumes "grade_answers t answers = Inr r"
  shows "manual_needed r =
           (\<exists>q \<in> set (questions t). startswith (qtype q) (pystr_of ''free_text''))"
proof -
  from assms obtain st where l: "grade_loop answers initial_state (questions t) = Inr st"
    and r: "manual_needed r = st_manual_needed st"
    by (auto simp add: grade_answers_def split: sum.splits)
  from grade_loop_manual [OF l] r show ?thesis by (simp add: initial_state_def list_ex_iff)
qed

theorem manual_needed_iff_free_text_witness:
  "grade_answers demo_test demo_answers = Inr demo_result
   \<and> manual_needed demo_result
   \<and> (\<exists>q \<in> set (questions demo_test). startswith (qtype q) (pystr_of ''free_text''))
   \<and> grade_answers essay_test demo_answers = Inr essay_result
   \<and> \<not> manual_needed essay_result"
  using manual_needed_iff_free_text [OF demo_graded] manual_needed_iff_free_text [OF essay_graded]
    demo_graded essay_graded
  by (simp add: demo_result_def essay_result_def)

text \<open>
  C9, as the claim states it: a test that holds a question of an unrecognized type
  without a \<^verbatim>\<open>points\<close> field has \<^verbatim>\<open>score\<close> below \<^verbatim>\<open>max_score\<close> for every answer
  map. The code puts no bound on an explicit \<^verbatim>\<open>points\<close> value: beside a single choice
  with \<^verbatim>\<open>"points": -1\<close> that is not answered, the totals are both 0.
\<close>

theorem unrecognized_question_total_not_below_max:
  "grade_answers penalty_test Map.empty = Inr penalty_result
   \<and> demo_essay \<in> set (questions penalty_test)
   \<and> unrecognized demo_essay
   \<and> points demo_essay = None
   \<and> \<not> (score penalty_result < max_score penalty_result)"
  using penalty_graded
  by (simp add: penalty_test_def penalty_result_def unrecognized_def demo_essay_def
      plain_question_def pystr_of_def)

text \<open>
  C9, amended: a question of an unrecognized type without a \<^verbatim>\<open>points\<close> field has the
  maximum 1 and the score 0 for every answer; and in a test that holds such a question,
  in which every maximum is not negative and has at most two decimal digits and the
  maxima sum to at most a million, \<^verbatim>\<open>score\<close> is below \<^verbatim>\<open>max_score\<close> for every answer
  map. The bound of a million is not needed in the exact arithmetic of this theory; it
  keeps the rounding error of the interpreter's floating-point sums far below the point
  that the question loses, so that the statement is one about the code too (beside a
  single choice worth \<^verbatim>\<open>10 ** 17\<close> points the code's \<^verbatim>\<open>max_total\<close> absorbs the 1).
\<close>

theorem unrecognized_question_loses_a_point:
  assumes "grade_answers t answers = Inr r"
    and "q \<in> set (questions t)"
    and "unrecognized q" and "points q = None"
    and "list_all plain_points (questions t)"
    and "sum_list (map question_max_points (questions t)) \<le> 1000000"
  shows "question_max_points q = 1 \<and> question_score answers q = Inr 0 \<and> score r < max_score r"
proof -
  from assms(1) obtain st where l: "grade_loop answers initial_state (questions t) = Inr st"
    and s: "score r = round2 (st_total st)" and m: "max_score r = round2 (st_max_total st)"
    by (auto simp add: grade_answers_def split: sum.splits)
  from grade_loop_unfold [OF l] obtain vs where
    a: "list_all2 (\<lambda>q v. question_score answers q = Inr v) (questions t) vs"
    and t: "st_total st = sum_list vs"
    and x: "st_max_total st = sum_list (map question_max_points (questions t))"
    by (auto simp add: initial_state_def)
  have "list_all (\<lambda>v. round2 v = v) (map question_max_points (questions t))"
    using assms(5) by (simp add: list_all_iff plain_points_def)
  then have rm: "round2 (st_max_total st) = st_max_total st"
    using sum_list_hundredths x by simp
  have rt: "round2 (st_total st) = st_total st"
    using sum_list_hundredths [OF scores_hundredths [OF a]] t by simp
  from scores_one_below_points [OF a assms(5,2,3,4)] t x
  have "st_total st < st_max_total st" by simp
  with s m rm rt unrecognized_max_points [OF assms(3,4)] unrecognized_score [OF assms(3)]
  show ?thesis by simp
qed

theorem unrecognized_question_loses_a_point_witness:
  "grade_answers essay_test demo_answers = Inr essay_result
   \<and> demo_essay \<in> set (questions essay_test)
   \<and> unrecognized demo_essay
   \<and> points demo_essay = None
   \<and> list_all plain_points (questions essay_test)
   \<and> sum_list (map question_max_points (questions essay_test)) \<le> 1000000
   \<and> question_max_points demo_essay = 1
   \<and> question_score demo_answers demo_essay = Inr 0
   \<and> score essay_result < max_score essay_result"
proof -
  have q: "demo_essay \<in> set (questions essay_test)" by (simp add: essay_test_def)
  have u: "unrecognized demo_essay"
    by (simp add: unrecognized_def demo_essay_def plain_question_def pystr_of_def)
  have n: "points demo_essay = None" by (simp add: demo_essay_def plain_question_def)
  have p: "list_all plain_points (questions essay_test)"
    by (simp add: essay_test_def plain_points_def demo_points round2_one_two)
  have s: "sum_list (map question_max_points (questions essay_test)) \<le> 1000000"
    by (simp add: essay_test_def demo_points)
  from unrecognized_question_loses_a_point [OF essay_graded q u n p s] essay_graded q u n p s
  show ?thesis by blast
qed

section \<open>The claims about single questions\<close>

text \<open>
  C6. For every true/false list with the expected sequence \<open>correct\<close> of length \<open>N\<close>,
  position \<open>i\<close> is a match only when the parsed student sequence has an \<open>i\<close>-th element
  and it equals the \<open>i\<close>-th expected value, so the positions that a shorter student
  sequence lacks count as wrong; the score is the number of matches times
  \<^verbatim>\<open>pts / max(1, N)\<close>, and the entry of \<^verbatim>\<open>details\<close> holds it rounded to two decimals.
  Expected \<^verbatim>\<open>["T","F","T"]\<close> against \<^verbatim>\<open>"TFF"\<close> matches the positions 0 and 1 and scores
  \<^verbatim>\<open>2 * (pts / 3)\<close>.
\<close>

theorem tf_list_positional_score:
  assumes "qtype q = pystr_of ''tf_list''"
  shows "let correct = map upper (answer_iter q);
             parts = parse_tf_list_input student_ans;
             matches = card {i. i < length correct \<and> i < length parts \<and> parts ! i = correct ! i};
             raw = of_nat matches * (pts / of_nat (max 1 (length correct)))
         in grade_question q pts student_ans =
              Inr (raw, False,
                   ListDetail (pystr_of ''tf_list'') parts correct matches (length correct)
                     (round2 raw))"
  using assms
  by (simp add: grade_question_def Let_def grade_tf_list_def grade_sequence_value
      count_positions_card tags_distinct)

theorem tf_list_positional_score_witness:
  "qtype demo_tf_list = pystr_of ''tf_list''
   \<and> map upper (answer_iter demo_tf_list) = map pystr_of [''T'', ''F'', ''T'']
   \<and> parse_tf_list_input (pystr_of ''TFF'') = map pystr_of [''T'', ''F'', ''F'']
   \<and> (\<forall>pts. \<exists>d. grade_question demo_tf_list pts (pystr_of ''TFF'') = Inr (2 * (pts / 3), False, d))"
proof -
  have t: "qtype demo_tf_list = pystr_of ''tf_list''"
    by (simp add: demo_tf_list_def plain_question_def)
  have c: "map upper (answer_iter demo_tf_list) = map pystr_of [''T'', ''F'', ''T'']"
    by (simp add: demo_tf_list_def plain_question_def answer_iter_def string_eval)
  have p: "parse_tf_list_input (pystr_of ''TFF'') = map pystr_of [''T'', ''F'', ''F'']"
    by (simp add: parse_tf_list_input_def string_eval)
  have n: "card {i. i < length (map pystr_of [''T'', ''F'', ''T''])
                    \<and> i < length (map pystr_of [''T'', ''F'', ''F''])
                    \<and> map pystr_of [''T'', ''F'', ''F''] ! i = map pystr_of [''T'', ''F'', ''T''] ! i}
           = 2"
    unfolding count_positions_card [symmetric]
    by (simp add: count_positions_def pystr_of_def)
  have "\<exists>d. grade_question demo_tf_list pts (pystr_of ''TFF'') = Inr (2 * (pts / 3), False, d)"
    for pts
    using tf_list_positional_score [OF t, of "pystr_of ''TFF''" pts]
    unfolding c p n Let_def by simp
  with t c p show ?thesis by blast
qed

lemma empty_key_score:
  assumes "empty_key q"
  shows "(\<exists>d. grade_question q pts a = Inr (0, False, d))
         \<or> (qtype q = pystr_of ''matching'' \<and> parse_matching_input a = Inl ValueError
             \<and> grade_question q pts a = Inl ValueError)"
proof (cases "qtype q = pystr_of ''matching''")
  case True
  with assms have k: "answer_items q = Inr []" by (simp add: empty_key_def)
  show ?thesis
  proof (cases "parse_matching_input a")
    case (Inl e)
    with parse_matching_error [OF Inl] True k show ?thesis
      by (simp add: grade_question_def Let_def grade_matching_def tags_distinct)
  next
    case (Inr s_map)
    with True k show ?thesis
      by (simp add: grade_question_def Let_def grade_matching_def partial_credit_value
          count_pairs_def tags_distinct)
  qed
next
  case False
  with assms show ?thesis
    by (auto simp add: empty_key_def grade_question_def Let_def grade_tf_list_def
        grade_ordering_def grade_sequence_value count_positions_Nil tags_distinct
        split: if_splits)
qed

lemma empty_list_key_scores_zero:
  assumes "empty_key q" and "qtype q \<noteq> pystr_of ''matching''"
  shows "\<exists>d. grade_question q pts a = Inr (0, False, d)"
  using empty_key_score [OF assms(1), of pts a] assms(2) by blast

lemma empty_ordering_scores_zero:
  "\<exists>d. grade_question empty_ordering 2 (pystr_of ''y x'') = Inr (0, False, d)"
proof -
  have "empty_key empty_ordering"
    by (simp add: empty_key_def empty_ordering_def plain_question_def answer_iter_def
        pystr_of_def)
  moreover have "qtype empty_ordering \<noteq> pystr_of ''matching''"
    by (simp add: empty_ordering_def plain_question_def tags_distinct)
  ultimately show ?thesis by (rule empty_list_key_scores_zero)
qed

lemma words_from_no_space:
  assumes "\<forall>c \<in> set s. \<not> isspace c"
  shows "words_from w s = (if w @ s = [] then [] else [w @ s])"
  using assms by (induction s arbitrary: w) simp_all

lemma match_pair_letter_digits:
  assumes "0 < n"
  shows "match_pair (97 # replicate n 49) = Some (97, replicate n 49, [])"
proof -
  from assms obtain m where n: "n = Suc m" by (cases n) simp_all
  have d: "is_digit 49" by (simp add: is_digit_def digit_value_ascii)
  have s: "\<not> isspace 49" and j: "\<not> is_joiner 49" and l: "is_ascii_letter 97"
    by (simp_all add: isspace_def is_joiner_def is_ascii_letter_def)
  have "dropWhile isspace (replicate (Suc m) 49) = 49 # replicate m 49"
    using s by simp
  moreover have "takeWhile is_digit (49 # replicate m 49) = 49 # replicate m 49"
    and "dropWhile is_digit (49 # replicate m 49) = []"
    using d by simp_all
  ultimately show ?thesis
    using n s j l by (simp add: match_pair_def Let_def)
qed

lemma long_number_raises: "parse_matching_input long_number_answer = Inl ValueError"
proof -
  let ?s = "97 # replicate 4301 49"
  have ns: "\<forall>c \<in> set ?s. \<not> isspace c" by (auto simp add: isspace_def)
  have r: "replace a 32 ?s = ?s" if "a \<noteq> 97" and "a \<noteq> 49" for a
    using that by (simp add: replace_def)
  have st: "strip ?s = ?s"
    by (intro strip_id) (simp_all add: isspace_def)
  have sp: "split ?s = [?s]"
    using words_from_no_space [OF ns, of "[]"] by (simp add: split_def)
  have m: "match_whole ?s = Some (97, replicate 4301 49)"
    using match_pair_letter_digits [of 4301] by (simp add: match_whole_def)
  have i: "py_int (replicate 4301 49) = Inl ValueError" by (simp add: py_int_def)
  show ?thesis
    unfolding long_number_answer_def parse_matching_input_def Let_def
    by (simp add: r st sp m i store_pair_def)
qed

text \<open>
  C7. The claim: for every matching, true/false list or ordering whose answer key has no
  expected item, grading does not raise and the score of the question is 0. The divisor
  is \<^verbatim>\<open>max(1, 0)\<close> and no input makes grading divide by zero
  (\<open>grade_answers_no_division_by_zero\<close>); a true/false list or an ordering with an
  empty key scores 0 on every answer (\<open>empty_list_key_scores_zero\<close>), and so does a
  matching whenever it returns (\<open>empty_key_score\<close>). The matching branch parses the
  answer before it divides, though, and nothing catches the \<^verbatim>\<open>ValueError\<close> of \<^verbatim>\<open>int\<close>
  on a number of more than 4300 digits: on the answer \<^verbatim>\<open>"a" + "1" * 4301\<close> a matching
  with an empty key raises instead of scoring 0.
\<close>

theorem empty_key_long_number_raises:
  "empty_key empty_matching
   \<and> length long_number_answer = 4302
   \<and> grade_question empty_matching (question_max_points empty_matching) long_number_answer
       = Inl ValueError
   \<and> grade_answers empty_key_test [pystr_of ''q7'' \<mapsto> long_number_answer] = Inl ValueError"
proof -
  have k: "empty_key empty_matching"
    by (simp add: empty_key_def empty_matching_def plain_question_def answer_items_def)
  have t: "qtype empty_matching = pystr_of ''matching''" and i: "qid empty_matching = pystr_of ''q7''"
    by (simp_all add: empty_matching_def plain_question_def)
  have g: "grade_question empty_matching pts long_number_answer = Inl ValueError" for pts
    using k t long_number_raises
    by (simp add: empty_key_def grade_question_def Let_def grade_matching_def tags_distinct)
  have "grade_answers empty_key_test [pystr_of ''q7'' \<mapsto> long_number_answer] = Inl ValueError"
    by (simp add: grade_answers_def empty_key_test_def grade_step_def Let_def get_answer_def i g)
  with k g show ?thesis by (simp add: long_number_answer_def)
qed

text \<open>
  C5, as the claim states it: a free-text question with a non-empty keyword list and a
  non-empty answer scores \<^verbatim>\<open>min(pts, pts * (found / total))\<close>, rounded. The code asks
  for more than a non-empty answer: \<^verbatim>\<open>student_ans.strip()\<close> must be non-empty. With
  the one keyword \<^verbatim>\<open>" "\<close> and the answer \<^verbatim>\<open>" "\<close> the search would find the keyword and
  the formula gives 2, but the code scores 0 and records no keyword found.
\<close>

theorem free_text_blank_answer_scores_zero:
  "startswith (qtype blank_keyword_question) (pystr_of ''free_text'')
   \<and> keyword_list blank_keyword_question = [pystr_of '' '']
   \<and> pystr_of '' '' \<noteq> []
   \<and> question_max_points blank_keyword_question = 2
   \<and> keywords_found [pystr_of '' ''] (pystr_of '' '') = 1
   \<and> keyword_share 2 [pystr_of '' ''] (pystr_of '' '') = 2
   \<and> grade_question blank_keyword_question 2 (pystr_of '' '') =
       Inr (0, True, FreeTextDetail (pystr_of ''free_text'') (pystr_of '' '') 0 1 0)"
  by (simp add: blank_keyword_question_def plain_question_def keyword_list_def
      keywords_found_def keyword_share_def question_max_points_def grade_question_def
      grade_free_text_def string_eval round2_numeral)

text \<open>
  C5, amended: for every free-text question, if the question declares a non-empty keyword
  list and the answer is not blank (not empty once white space is stripped from its ends),
  the score is \<^verbatim>\<open>min(pts, pts * (found / total))\<close> rounded to two decimals, where
  \<open>found\<close> counts the keywords that a case-insensitive substring search finds in the
  answer; if no keywords are configured or the answer is empty or blank, the score is 0
  and the entry of \<^verbatim>\<open>details\<close> records zero keywords found. The flag for manual
  review is set in both cases.
\<close>

theorem free_text_keyword_score:
  assumes "startswith (qtype q) (pystr_of ''free_text'')"
  shows "grade_question q pts student_ans =
           (if strip student_ans \<noteq> [] \<and> keyword_list q \<noteq> [] then
              Inr (keyword_share pts (keyword_list q) student_ans, True,
                   FreeTextDetail (qtype q) student_ans
                     (keywords_found (keyword_list q) student_ans) (length (keyword_list q))
                     (keyword_share pts (keyword_list q) student_ans))
            else
              Inr (0, True, FreeTextDetail (qtype q) student_ans 0 (length (keyword_list q)) 0))"
proof -
  have g: "grade_question q pts student_ans = grade_free_text q pts student_ans"
    using assms free_text_not_fixed_tag [OF assms] by (simp add: grade_question_def Let_def)
  have k: "(case q_keywords q of None \<Rightarrow> [] | Some ks \<Rightarrow> map lower ks) = map lower (keyword_list q)"
    by (simp add: keyword_list_def split: option.splits)
  have f: "length (filter (contains (lower student_ans)) (map lower (keyword_list q)))
           = keywords_found (keyword_list q) student_ans"
    by (simp add: keywords_found_def filter_map comp_def)
  show ?thesis
    unfolding g grade_free_text_def k Let_def f
    by (simp add: py_div_def keyword_share_def)
qed

theorem free_text_keyword_score_witness:
  "startswith (qtype demo_free_text) (pystr_of ''free_text'')
   \<and> grade_question demo_free_text 2 (pystr_of ''the process of mitosis splits the cell'') =
       Inr (2, True,
            FreeTextDetail (pystr_of ''free_text'')
              (pystr_of ''the process of mitosis splits the cell'') 2 2 2)
   \<and> grade_question demo_free_text 2 (pystr_of ''it splits'') =
       Inr (0, True, FreeTextDetail (pystr_of ''free_text'') (pystr_of ''it splits'') 0 2 0)
   \<and> grade_question demo_free_text 2 [] =
       Inr (0, True, FreeTextDetail (pystr_of ''free_text'') [] 0 2 0)"
proof -
  have s: "startswith (qtype demo_free_text) (pystr_of ''free_text'')"
    by (simp add: demo_free_text_def plain_question_def pystr_of_def)
  have k: "keyword_list demo_free_text = map pystr_of [''mitosis'', ''cell'']"
    by (simp add: keyword_list_def demo_free_text_def plain_question_def)
  have t: "qtype demo_free_text = pystr_of ''free_text''"
    by (simp add: demo_free_text_def plain_question_def)
  have a: "grade_question demo_free_text 2 (pystr_of ''the process of mitosis splits the cell'') =
       Inr (2, True,
            FreeTextDetail (pystr_of ''free_text'')
              (pystr_of ''the process of mitosis splits the cell'') 2 2 2)"
    unfolding free_text_keyword_score [OF s] k t
    by (simp add: keyword_share_def keywords_found_def string_eval round2_numeral)
  have b: "grade_question demo_free_text 2 (pystr_of ''it splits'') =
       Inr (0, True, FreeTextDetail (pystr_of ''free_text'') (pystr_of ''it splits'') 0 2 0)"
    unfolding free_text_keyword_score [OF s] k t
    by (simp add: keyword_share_def keywords_found_def string_eval round2_0)
  have c: "grade_question demo_free_text 2 [] =
       Inr (0, True, FreeTextDetail (pystr_of ''free_text'') [] 0 2 0)"
    unfolding free_text_keyword_score [OF s] k t
    by (simp add: strip_def)
  from s a b c show ?thesis by blast
qed

text \<open>
  C10. \<^verbatim>\<open>parse_ordering\<close> keeps only the tokens that are one ASCII letter from \<^verbatim>\<open>a\<close>
  to \<^verbatim>\<open>z\<close> after lower-casing. For every input made of digits and of characters that
  are not Latin (Cyrillic letters, for one) it returns the empty sequence, so that such
  an answer to an ordering scores 0.
\<close>

theorem parse_ordering_keeps_ascii_letters:
  assumes "list_all digit_or_non_latin s" and "qtype q = pystr_of ''ordering''"
  shows "list_all single_letter (parse_ordering_input any)
         \<and> parse_ordering_input s = []
         \<and> (\<exists>d. grade_question q pts s = Inr (0, False, d))"
proof -
  from assms(1) have e: "parse_ordering_input s = []"
    by (intro parse_ordering_no_letter) (simp add: list_all_iff)
  have "\<exists>d. grade_question q pts s = Inr (0, False, d)"
    using assms(2) e
    by (simp add: grade_question_def Let_def grade_ordering_def grade_sequence_value
        count_positions_Nil tags_distinct)
  with e parse_ordering_tokens show ?thesis by blast
qed

theorem parse_ordering_keeps_ascii_letters_witness:
  "list_all digit_or_non_latin [1076, 1074, 49, 1073, 1040, 50]
   \<and> qtype cyrillic_ordering = pystr_of ''ordering''
   \<and> list_all single_letter (parse_ordering_input (pystr_of ''b, 7, A''))
   \<and> parse_ordering_input [1076, 1074, 49, 1073, 1040, 50] = []
   \<and> (\<exists>d. grade_question cyrillic_ordering 2 [1076, 1074, 49, 1073, 1040, 50] = Inr (0, False, d))"
proof -
  have a: "list_all digit_or_non_latin [1076, 1074, 49, 1073, 1040, 50]"
    by (simp add: digit_or_non_latin_def)
  have t: "qtype cyrillic_ordering = pystr_of ''ordering''"
    by (simp add: cyrillic_ordering_def plain_question_def)
  from parse_ordering_keeps_ascii_letters [OF a t, of "pystr_of ''b, 7, A''" 2] a t
  show ?thesis by blast
qed

end
